theory Spec2Isabelle
  imports Main
begin

section \<open>GPU acquisition through concurrency limits (flows/demo3/main.py)\<close>

text \<open>
  The module \<^verbatim>\<open>src/flows/demo3/main.py\<close> reads two environment variables, derives one
  concurrency-limit name per GPU of the worker, and probes these limits in order inside a
  generator-based context manager (\<^verbatim>\<open>acquire_gpu\<close>). Two flows run three simulated
  tasks under that context manager. Everything the Python does beyond returning a value
  (reading the environment, talking to the limiter service, logging, sleeping, drawing
  random numbers, printing) is explicit here: functions take a \<open>world\<close> and return the
  new one, and every raise is an \<open>Inl\<close> or a \<open>Raise\<close>.
\<close>

subsection \<open>Exceptions and Python values\<close>

text \<open>
  The exception classes the module raises, catches or lets through.
  \<open>InvalidLiteral tok\<close> is the \<^verbatim>\<open>ValueError\<close> that \<^verbatim>\<open>int(tok)\<close> raises (its message
  quotes the token); \<open>OtherError\<close> stands for every exception class that is neither of
  the two slot-acquisition classes nor one of the above.
\<close>

datatype exn =
    AcquireConcurrencySlotTimeoutError
  | ConcurrencySlotAcquisitionError
  | ValueError string
  | InvalidLiteral string
  | RuntimeError string
  | OtherError string

datatype pyval = NoneV | IntV int | StrV string

text \<open>Both \<open>ValueError\<close> forms are instances of the Python class \<^verbatim>\<open>ValueError\<close>.\<close>

fun is_ValueError :: "exn \<Rightarrow> bool" where
  "is_ValueError (ValueError _) = True"
| "is_ValueError (InvalidLiteral _) = True"
| "is_ValueError _ = False"

text \<open>
  The tuple of the clause
  \<^verbatim>\<open>except (AcquireConcurrencySlotTimeoutError, ConcurrencySlotAcquisitionError)\<close>.
\<close>

fun is_contention :: "exn \<Rightarrow> bool" where
  "is_contention AcquireConcurrencySlotTimeoutError = True"
| "is_contention ConcurrencySlotAcquisitionError = True"
| "is_contention _ = False"

subsection \<open>Strings: \<^verbatim>\<open>str.split\<close>, \<^verbatim>\<open>int()\<close>, \<^verbatim>\<open>str()\<close> of an integer, \<^verbatim>\<open>str.upper\<close>\<close>

text \<open>
  \<^verbatim>\<open>s.split(sep)\<close> with a one-character separator: the pieces between separators, empty
  pieces kept, so the empty string gives one empty piece. \<open>cur\<close> is the piece being read.
\<close>

fun split_acc :: "char \<Rightarrow> string \<Rightarrow> string \<Rightarrow> string list" where
  "split_acc sep cur [] = [cur]"
| "split_acc sep cur (c # cs) =
     (if c = sep then cur # split_acc sep [] cs else split_acc sep (cur @ [c]) cs)"

definition split :: "string \<Rightarrow> char \<Rightarrow> string list" where
  "split s sep = split_acc sep [] s"

text \<open>
  \<^verbatim>\<open>int(s)\<close> for a string of ASCII characters, base 10: whitespace (tab, line feed,
  vertical tab, form feed, carriage return, space) is stripped at both ends, one sign is
  allowed, then at least one digit, with single underscores allowed between digits.
  Anything else raises \<^verbatim>\<open>ValueError\<close> (\<open>None\<close> here). Non-ASCII digits and the
  interpreter's configurable limit on the number of digits are outside this model.
\<close>

definition is_space :: "char \<Rightarrow> bool" where
  "is_space c \<longleftrightarrow> (9 \<le> (of_char c :: nat) \<and> (of_char c :: nat) \<le> 13) \<or> c = CHR '' ''"

definition is_digit :: "char \<Rightarrow> bool" where
  "is_digit c \<longleftrightarrow> 48 \<le> (of_char c :: nat) \<and> (of_char c :: nat) \<le> 57"

definition digit_val :: "char \<Rightarrow> nat" where
  "digit_val c = of_char c - 48"

fun digit_run :: "nat \<Rightarrow> string \<Rightarrow> nat option" where
  "digit_run acc [] = Some acc"
| "digit_run acc (c # cs) =
     (if is_digit c then digit_run (10 * acc + digit_val c) cs
      else if c = CHR ''_'' then
        (case cs of
           [] \<Rightarrow> None
         | d # ds \<Rightarrow> if is_digit d then digit_run (10 * acc + digit_val d) ds else None)
      else None)"

definition digits :: "string \<Rightarrow> nat option" where
  "digits s = (case s of
      [] \<Rightarrow> None
    | c # cs \<Rightarrow> if is_digit c then digit_run (digit_val c) cs else None)"

definition strip :: "string \<Rightarrow> string" where
  "strip s = rev (dropWhile is_space (rev (dropWhile is_space s)))"

definition py_int :: "string \<Rightarrow> int option" where
  "py_int s = (case strip s of
      [] \<Rightarrow> None
    | c # cs \<Rightarrow>
        if c = CHR ''-'' then map_option (\<lambda>n. - int n) (digits cs)
        else if c = CHR ''+'' then map_option int (digits cs)
        else map_option int (digits (c # cs)))"

text \<open>\<^verbatim>\<open>str(i)\<close> of an integer, as the f-strings format it: decimal, a minus sign if negative.\<close>

definition digit_char :: "nat \<Rightarrow> char" where
  "digit_char d = char_of (48 + d)"

fun str_nat :: "nat \<Rightarrow> string" where
  "str_nat n = (if n < 10 then [digit_char n] else str_nat (n div 10) @ [digit_char (n mod 10)])"

declare str_nat.simps [simp del]

definition str_int :: "int \<Rightarrow> string" where
  "str_int i = (if i < 0 then CHR ''-'' # str_nat (nat (- i)) else str_nat (nat i))"

text \<open>\<^verbatim>\<open>s.upper()\<close> on ASCII letters.\<close>

definition upper_char :: "char \<Rightarrow> char" where
  "upper_char c =
     (if 97 \<le> (of_char c :: nat) \<and> (of_char c :: nat) \<le> 122
      then char_of ((of_char c :: nat) - 32) else c)"

definition upper :: "string \<Rightarrow> string" where
  "upper s = map upper_char s"

subsection \<open>Configuration: \<^verbatim>\<open>get_worker_gpu_ids\<close>\<close>

text \<open>
  The list comprehension \<^verbatim>\<open>[int(id_) for id_ in ...]\<close>: tokens are converted from left
  to right and the first one that \<^verbatim>\<open>int\<close> rejects raises.
\<close>

fun int_each :: "string list \<Rightarrow> exn + int list" where
  "int_each [] = Inr []"
| "int_each (tok # rest) =
     (case py_int tok of
        None \<Rightarrow> Inl (InvalidLiteral tok)
      | Some i \<Rightarrow> (case int_each rest of Inl e \<Rightarrow> Inl e | Inr is \<Rightarrow> Inr (i # is)))"

text \<open>
  \<^verbatim>\<open>os.environ\<close> is a map from names to values. \<^verbatim>\<open>os.environ.get("WORKER_GPU_IDS", "")\<close>
  makes an unset variable and an empty one the same.
\<close>

definition get_worker_gpu_ids :: "(string \<rightharpoonup> string) \<Rightarrow> exn + int list" where
  "get_worker_gpu_ids env =
     (let raw_gpu_ids = (case env ''WORKER_GPU_IDS'' of None \<Rightarrow> [] | Some v \<Rightarrow> v)
      in if raw_gpu_ids = []
         then Inl (ValueError ''WORKER_GPU_IDS environment variable is not set.'')
         else int_each (split raw_gpu_ids CHR '',''))"

subsection \<open>The world: environment, limiter service, random source, observable events\<close>

text \<open>
  Log records keep the fields that the f-strings of the module interpolate, in place of
  the rendered text.
\<close>

datatype log_record =
    WorkerHasGpus string "int list"
  | LimitNamesToTry "(int \<times> string) list"
  | AcquiredGpu int string
  | ReleasedGpu int string
  | GpuBusy int
  | SimulatingWork int nat
  | Started string int
  | Finished string int

text \<open>
  \<open>TryAcquire name occupy timeout_ms answer\<close> is one entry into
  \<^verbatim>\<open>concurrency(name, occupy=.., timeout_seconds=..)\<close> with what the service answered
  (\<open>None\<close>: the slot was granted); \<open>Release name\<close> is the exit of that context manager.
\<close>

datatype event =
    Info log_record
  | TryAcquire string nat nat "exn option"
  | Release string
  | Sleep nat
  | Print string

text \<open>
  Modelled from the spec: the limiter service (Prefect's \<^verbatim>\<open>concurrency\<close> context
  manager, which is not code of this repository). Following the spec's
  \<^verbatim>\<open>tryAcquire(name, capacity, hold, timeout) -> Acquired | Busy | ServiceError\<close> and
  \<^verbatim>\<open>release(name) -> Ack\<close>, the service is an oracle: \<open>limiter \<sigma> k name\<close> is its
  answer to the \<open>k\<close>-th probe this process makes, if that probe asks for \<open>name\<close>; \<open>None\<close>
  grants the slot, \<open>Some e\<close> raises \<open>e\<close>. Indexing by \<open>k\<close> lets other workers take and
  free slots between two probes. Leaving the context manager releases the slot and lets
  an exception of the block pass.

  The random module is an oracle too: \<open>rand \<sigma> k\<close> is the \<open>k\<close>-th raw draw.
\<close>

record world =
  environ :: "string \<rightharpoonup> string"
  limiter :: "nat \<Rightarrow> string \<Rightarrow> exn option"
  clock :: nat
  rand :: "nat \<Rightarrow> nat"
  draws :: nat
  trace :: "event list"

definition emit :: "event \<Rightarrow> world \<Rightarrow> world" where
  "emit e \<sigma> = \<sigma>\<lparr>trace := trace \<sigma> @ [e]\<rparr>"

definition info :: "log_record \<Rightarrow> world \<Rightarrow> world" where
  "info r \<sigma> = emit (Info r) \<sigma>"

definition concurrency_enter :: "string \<Rightarrow> nat \<Rightarrow> nat \<Rightarrow> world \<Rightarrow> exn option \<times> world" where
  "concurrency_enter name occupy timeout_ms \<sigma> =
     (let answer = limiter \<sigma> (clock \<sigma>) name
      in (answer, emit (TryAcquire name occupy timeout_ms answer) (\<sigma>\<lparr>clock := Suc (clock \<sigma>)\<rparr>)))"

definition concurrency_exit :: "string \<Rightarrow> world \<Rightarrow> world" where
  "concurrency_exit name \<sigma> = emit (Release name) \<sigma>"

text \<open>\<^verbatim>\<open>random.randint(a, b)\<close> and \<^verbatim>\<open>random.choice(xs)\<close> on a non-empty list.\<close>

definition randint :: "int \<Rightarrow> int \<Rightarrow> world \<Rightarrow> int \<times> world" where
  "randint a b \<sigma> =
     (a + int (rand \<sigma> (draws \<sigma>) mod nat (b - a + 1)), \<sigma>\<lparr>draws := Suc (draws \<sigma>)\<rparr>)"

definition choice :: "'a list \<Rightarrow> world \<Rightarrow> 'a \<times> world" where
  "choice xs \<sigma> = (xs ! (rand \<sigma> (draws \<sigma>) mod length xs), \<sigma>\<lparr>draws := Suc (draws \<sigma>)\<rparr>)"

subsection \<open>\<^verbatim>\<open>acquire_gpu\<close>: the generator\<close>

text \<open>The f-string \<^verbatim>\<open>f"gpu-{worker_id}-{gpu_id}"\<close>.\<close>

definition limit_name :: "string \<Rightarrow> int \<Rightarrow> string" where
  "limit_name worker_id gpu_id = ''gpu-'' @ worker_id @ ''-'' @ str_int gpu_id"

text \<open>
  The generator's frame while it is suspended at \<^verbatim>\<open>yield gpu_id\<close>: the worker, the
  candidate it holds, and the candidates the \<^verbatim>\<open>for\<close> loop has not reached yet.
\<close>

record gen_state =
  g_worker_id :: string
  g_gpu_id :: int
  g_limit_name :: string
  g_rest :: "(int \<times> string) list"

datatype gen_outcome = Yield gen_state | Raise exn | StopIteration

text \<open>
  The \<^verbatim>\<open>for\<close> loop of \<^verbatim>\<open>acquire_gpu\<close> (lines 103 to 113), run until the generator
  yields or raises. The probe is \<^verbatim>\<open>concurrency(name, occupy=1, timeout_seconds=0.1)\<close>,
  the timeout written in milliseconds.
\<close>

fun probe_loop :: "string \<Rightarrow> (int \<times> string) list \<Rightarrow> world \<Rightarrow> gen_outcome \<times> world" where
  "probe_loop worker_id [] \<sigma> =
     (Raise (RuntimeError (''No available GPUs on worker '' @ worker_id)), \<sigma>)"
| "probe_loop worker_id ((gpu_id, prefect_limit_name) # rest) \<sigma> =
     (case concurrency_enter prefect_limit_name 1 100 \<sigma> of
        (None, \<sigma>1) \<Rightarrow>
          (Yield \<lparr>g_worker_id = worker_id, g_gpu_id = gpu_id,
                  g_limit_name = prefect_limit_name, g_rest = rest\<rparr>,
           info (AcquiredGpu gpu_id worker_id) \<sigma>1)
      | (Some e, \<sigma>1) \<Rightarrow>
          if is_contention e then probe_loop worker_id rest (info (GpuBusy gpu_id) \<sigma>1)
          else (Raise e, \<sigma>1))"

text \<open>The generator from its start to its first yield or raise (lines 85 to 113).\<close>

definition acquire_gpu :: "world \<Rightarrow> gen_outcome \<times> world" where
  "acquire_gpu \<sigma> =
     (case environ \<sigma> ''WORKER_ID'' of
        None \<Rightarrow>
          (Raise (ValueError ''WORKER_ID environment variable is not set - cannot acquire GPU''), \<sigma>)
      | Some worker_id \<Rightarrow>
          (case get_worker_gpu_ids (environ \<sigma>) of
             Inl e \<Rightarrow> (Raise e, \<sigma>)
           | Inr existing_gpu_ids \<Rightarrow>
               let prefect_concurrency_limit_names =
                     map (\<lambda>gpu_id. (gpu_id, limit_name worker_id gpu_id)) existing_gpu_ids;
                   \<sigma>1 = info (WorkerHasGpus worker_id existing_gpu_ids) \<sigma>;
                   \<sigma>2 = info (LimitNamesToTry prefect_concurrency_limit_names) \<sigma>1
               in probe_loop worker_id prefect_concurrency_limit_names \<sigma>2))"

text \<open>
  Resuming the suspended generator. \<^verbatim>\<open>next\<close>: the lines after the yield log the release,
  \<^verbatim>\<open>return\<close> leaves the \<^verbatim>\<open>with concurrency\<close> block, which releases the slot, and the
  generator stops. \<^verbatim>\<open>throw(e)\<close>: \<open>e\<close> is raised at the yield; it leaves the
  \<^verbatim>\<open>with concurrency\<close> block, which releases the slot, and reaches the \<^verbatim>\<open>except\<close>
  clause, which catches the two slot-acquisition classes and goes on with the loop.
  \<^verbatim>\<open>close()\<close>: \<^verbatim>\<open>GeneratorExit\<close> is raised at the yield, the slot is released, the
  \<^verbatim>\<open>except\<close> clause does not match.
\<close>

definition acquire_gpu_next :: "gen_state \<Rightarrow> world \<Rightarrow> gen_outcome \<times> world" where
  "acquire_gpu_next g \<sigma> =
     (StopIteration,
      concurrency_exit (g_limit_name g) (info (ReleasedGpu (g_gpu_id g) (g_worker_id g)) \<sigma>))"

definition acquire_gpu_throw :: "gen_state \<Rightarrow> exn \<Rightarrow> world \<Rightarrow> gen_outcome \<times> world" where
  "acquire_gpu_throw g e \<sigma> =
     (let \<sigma>1 = concurrency_exit (g_limit_name g) \<sigma>
      in if is_contention e
         then probe_loop (g_worker_id g) (g_rest g) (info (GpuBusy (g_gpu_id g)) \<sigma>1)
         else (Raise e, \<sigma>1))"

definition acquire_gpu_close :: "gen_state \<Rightarrow> world \<Rightarrow> world" where
  "acquire_gpu_close g \<sigma> = concurrency_exit (g_limit_name g) \<sigma>"

subsection \<open>\<^verbatim>\<open>@contextlib.contextmanager\<close> and the \<^verbatim>\<open>with\<close> statement\<close>

text \<open>
  \<^verbatim>\<open>__enter__\<close> runs the generator to its first yield and hands the yielded value to the
  block. \<^verbatim>\<open>__exit__\<close> resumes it with \<^verbatim>\<open>next\<close> when the block ended normally and with
  \<^verbatim>\<open>throw\<close> when the block raised; a generator that yields once more is closed and a
  \<^verbatim>\<open>RuntimeError\<close> is raised; a generator that stops after \<^verbatim>\<open>throw\<close> has swallowed the
  block's exception. The result of \<open>contextmanager_exit\<close> is the exception that leaves
  the \<^verbatim>\<open>with\<close> statement, if any.
\<close>

definition contextmanager_enter :: "world \<Rightarrow> (exn + gen_state) \<times> world" where
  "contextmanager_enter \<sigma> =
     (case acquire_gpu \<sigma> of
        (Yield g, \<sigma>1) \<Rightarrow> (Inr g, \<sigma>1)
      | (Raise e, \<sigma>1) \<Rightarrow> (Inl e, \<sigma>1)
      | (StopIteration, \<sigma>1) \<Rightarrow> (Inl (RuntimeError ''generator didn't yield''), \<sigma>1))"

definition contextmanager_exit :: "gen_state \<Rightarrow> exn option \<Rightarrow> world \<Rightarrow> exn option \<times> world" where
  "contextmanager_exit g exc \<sigma> =
     (case exc of
        None \<Rightarrow>
          (case acquire_gpu_next g \<sigma> of
             (StopIteration, \<sigma>1) \<Rightarrow> (None, \<sigma>1)
           | (Raise e, \<sigma>1) \<Rightarrow> (Some e, \<sigma>1)
           | (Yield g', \<sigma>1) \<Rightarrow>
               (Some (RuntimeError ''generator didn't stop''), acquire_gpu_close g' \<sigma>1))
      | Some v \<Rightarrow>
          (case acquire_gpu_throw g v \<sigma> of
             (StopIteration, \<sigma>1) \<Rightarrow> (None, \<sigma>1)
           | (Raise e, \<sigma>1) \<Rightarrow> (Some e, \<sigma>1)
           | (Yield g', \<sigma>1) \<Rightarrow>
               (Some (RuntimeError ''generator didn't stop after throw()''),
                acquire_gpu_close g' \<sigma>1)))"

text \<open>
  \<^verbatim>\<open>with acquire_gpu(logger) as gpu_id: block\<close>. The result is \<open>Inr None\<close> when the block
  raised and the context manager swallowed the exception, so that the block produced
  no value.
\<close>

definition with_acquire_gpu ::
  "(int \<Rightarrow> world \<Rightarrow> (exn + 'a) \<times> world) \<Rightarrow> world \<Rightarrow> (exn + 'a option) \<times> world" where
  "with_acquire_gpu block \<sigma> =
     (case contextmanager_enter \<sigma> of
        (Inl e, \<sigma>1) \<Rightarrow> (Inl e, \<sigma>1)
      | (Inr g, \<sigma>1) \<Rightarrow>
          (case block (g_gpu_id g) \<sigma>1 of
             (Inr v, \<sigma>2) \<Rightarrow>
               (case contextmanager_exit g None \<sigma>2 of
                  (None, \<sigma>3) \<Rightarrow> (Inr (Some v), \<sigma>3)
                | (Some e, \<sigma>3) \<Rightarrow> (Inl e, \<sigma>3))
           | (Inl e, \<sigma>2) \<Rightarrow>
               (case contextmanager_exit g (Some e) \<sigma>2 of
                  (None, \<sigma>3) \<Rightarrow> (Inr None, \<sigma>3)
                | (Some e', \<sigma>3) \<Rightarrow> (Inl e', \<sigma>3))))"

subsection \<open>The simulated tasks\<close>

text \<open>
  \<^verbatim>\<open>_simulate_work\<close>: one log record, then \<^verbatim>\<open>work_for_seconds\<close> rounds of one
  \<^verbatim>\<open>random.randint(0, 10)\<close> and one \<^verbatim>\<open>time.sleep(1)\<close>. The three tasks log, simulate
  work and log again; \<^verbatim>\<open>predict\<close> returns \<^verbatim>\<open>random.choice\<close> of six labels and
  \<^verbatim>\<open>post_processing\<close> prints the label in upper case and returns nothing.
\<close>

fun work_loop :: "nat \<Rightarrow> int \<Rightarrow> world \<Rightarrow> int \<times> world" where
  "work_loop 0 result \<sigma> = (result, \<sigma>)"
| "work_loop (Suc n) result \<sigma> =
     (case randint 0 10 \<sigma> of (r, \<sigma>1) \<Rightarrow> work_loop n (result + r) (emit (Sleep 1) \<sigma>1))"

definition simulate_work :: "int \<Rightarrow> nat \<Rightarrow> world \<Rightarrow> int \<times> world" where
  "simulate_work gpu_id work_for_seconds \<sigma> =
     work_loop work_for_seconds 0 (info (SimulatingWork gpu_id work_for_seconds) \<sigma>)"

definition pre_processing :: "int \<Rightarrow> nat \<Rightarrow> world \<Rightarrow> int \<times> world" where
  "pre_processing gpu_id simulate_work_for_seconds \<sigma> =
     (case simulate_work gpu_id simulate_work_for_seconds
             (info (Started ''pre_processing'' gpu_id) \<sigma>) of
        (result, \<sigma>1) \<Rightarrow> (result, info (Finished ''pre_processing'' gpu_id) \<sigma>1))"

definition labels :: "string list" where
  "labels = [''Cat'', ''Dog'', ''Sheep'', ''Duck'', ''Owl'', ''Squirrel'']"

definition predict :: "int \<Rightarrow> int \<Rightarrow> nat \<Rightarrow> world \<Rightarrow> string \<times> world" where
  "predict gpu_id data simulate_work_for_seconds \<sigma> =
     (case simulate_work gpu_id simulate_work_for_seconds
             (info (Started ''prediction'' gpu_id) \<sigma>) of
        (_, \<sigma>1) \<Rightarrow> choice labels (info (Finished ''prediction'' gpu_id) \<sigma>1))"

definition post_processing :: "int \<Rightarrow> string \<Rightarrow> nat \<Rightarrow> world \<Rightarrow> pyval \<times> world" where
  "post_processing gpu_id pred simulate_work_for_seconds \<sigma> =
     (case simulate_work gpu_id simulate_work_for_seconds
             (info (Started ''post_processing'' gpu_id) \<sigma>) of
        (_, \<sigma>1) \<Rightarrow> (NoneV, emit (Print (upper pred)) (info (Finished ''post_processing'' gpu_id) \<sigma>1)))"

subsection \<open>The two flows\<close>

text \<open>
  The bodies of the two flow functions; the tasks run with their default of 30 seconds.
  Neither function has a \<^verbatim>\<open>return\<close> statement, so each returns \<^verbatim>\<open>None\<close> when it
  reaches its end. A name assigned inside a \<^verbatim>\<open>with\<close> block is unbound afterwards if the
  block did not reach the assignment and the context manager swallowed the exception;
  reading it raises \<^verbatim>\<open>UnboundLocalError\<close>. The retries that the \<^verbatim>\<open>@flow\<close> decorator of
  the second flow asks for are run by the orchestrator, not by this code.
\<close>

definition unbound_local :: exn where
  "unbound_local = OtherError ''UnboundLocalError''"

definition task_acquisition_prediction_flow :: "world \<Rightarrow> (exn + pyval) \<times> world" where
  "task_acquisition_prediction_flow \<sigma> =
     (case with_acquire_gpu
             (\<lambda>gpu_id s. case pre_processing gpu_id 30 s of (data, s1) \<Rightarrow> (Inr data, s1)) \<sigma> of
        (Inl e, \<sigma>1) \<Rightarrow> (Inl e, \<sigma>1)
      | (Inr data, \<sigma>1) \<Rightarrow>
     (case with_acquire_gpu
             (\<lambda>gpu_id s. case data of
                 None \<Rightarrow> (Inl unbound_local, s)
               | Some d \<Rightarrow> (case predict gpu_id d 30 s of (prediction, s1) \<Rightarrow> (Inr prediction, s1)))
             \<sigma>1 of
        (Inl e, \<sigma>2) \<Rightarrow> (Inl e, \<sigma>2)
      | (Inr prediction, \<sigma>2) \<Rightarrow>
     (case with_acquire_gpu
             (\<lambda>gpu_id s. case prediction of
                 None \<Rightarrow> (Inl unbound_local, s)
               | Some p \<Rightarrow> (case post_processing gpu_id p 30 s of (r, s1) \<Rightarrow> (Inr r, s1)))
             \<sigma>2 of
        (Inl e, \<sigma>3) \<Rightarrow> (Inl e, \<sigma>3)
      | (Inr _, \<sigma>3) \<Rightarrow> (Inr NoneV, \<sigma>3))))"

definition single_acquisition_prediction_flow :: "world \<Rightarrow> (exn + pyval) \<times> world" where
  "single_acquisition_prediction_flow \<sigma> =
     (case with_acquire_gpu
             (\<lambda>gpu_id s.
                case pre_processing gpu_id 30 s of (data, s1) \<Rightarrow>
                case predict gpu_id data 30 s1 of (prediction, s2) \<Rightarrow>
                case post_processing gpu_id prediction 30 s2 of (r, s3) \<Rightarrow> (Inr r, s3)) \<sigma> of
        (Inl e, \<sigma>1) \<Rightarrow> (Inl e, \<sigma>1)
      | (Inr _, \<sigma>1) \<Rightarrow> (Inr NoneV, \<sigma>1))"

subsection \<open>Vocabulary of the properties\<close>

text \<open>
  These definitions are used to state properties only; no function of the program
  refers to them. \<open>join sep toks\<close> is \<^verbatim>\<open>sep.join(toks)\<close>; an integer token is an
  optional sign followed by at least one decimal digit, and \<open>token_value\<close> reads it.
\<close>

fun join :: "char \<Rightarrow> string list \<Rightarrow> string" where
  "join sep [] = []"
| "join sep [t] = t"
| "join sep (t # u # ts) = t @ sep # join sep (u # ts)"

definition decimal :: "string \<Rightarrow> nat" where
  "decimal ds = foldl (\<lambda>a c. 10 * a + digit_val c) 0 ds"

definition int_token :: "string \<Rightarrow> bool" where
  "int_token t = (case t of
      [] \<Rightarrow> False
    | c # cs \<Rightarrow> if c = CHR ''-'' \<or> c = CHR ''+'' then cs \<noteq> [] \<and> list_all is_digit cs
               else list_all is_digit (c # cs))"

definition token_value :: "string \<Rightarrow> int" where
  "token_value t = (case t of
      [] \<Rightarrow> 0
    | c # cs \<Rightarrow> if c = CHR ''-'' then - int (decimal cs)
               else if c = CHR ''+'' then int (decimal cs)
               else int (decimal (c # cs)))"

text \<open>
  Projections of a trace. \<open>probes\<close> lists every entry into the limiter with its
  arguments, whatever the answer; \<open>skeleton\<close> keeps the granted slots, the releases and
  the start of each task; \<open>lease_events\<close> keeps the grants and releases only;
  \<open>printed\<close> is what was written to the standard output.
\<close>

fun probes :: "event list \<Rightarrow> (string \<times> nat \<times> nat) list" where
  "probes [] = []"
| "probes (TryAcquire name occupy timeout_ms answer # es) = (name, occupy, timeout_ms) # probes es"
| "probes (_ # es) = probes es"

datatype mark = Acq string | Rel string | Unit string int

fun skeleton :: "event list \<Rightarrow> mark list" where
  "skeleton [] = []"
| "skeleton (TryAcquire name occupy timeout_ms None # es) = Acq name # skeleton es"
| "skeleton (Release name # es) = Rel name # skeleton es"
| "skeleton (Info (Started task gpu_id) # es) = Unit task gpu_id # skeleton es"
| "skeleton (_ # es) = skeleton es"

fun is_lease :: "mark \<Rightarrow> bool" where
  "is_lease (Unit _ _) = False"
| "is_lease _ = True"

definition lease_events :: "event list \<Rightarrow> mark list" where
  "lease_events es = filter is_lease (skeleton es)"

fun printed :: "event list \<Rightarrow> string list" where
  "printed [] = []"
| "printed (Print s # es) = s # printed es"
| "printed (_ # es) = printed es"

text \<open>The sum of the timeouts of a list of probes, in milliseconds.\<close>

definition budget_ms :: "(string \<times> nat \<times> nat) list \<Rightarrow> nat" where
  "budget_ms ps = sum_list (map (\<lambda>p. snd (snd p)) ps)"

text \<open>
  \<open>paired h ms\<close>: read from a moment at which the process holds \<open>h\<close> (no slot, or the
  named one), the marks \<open>ms\<close> never grant a slot while one is held, release only the
  slot that is held, and end with no slot held. So every grant is followed by exactly one
  release of the same name before the next grant and before the end.
\<close>

fun paired :: "string option \<Rightarrow> mark list \<Rightarrow> bool" where
  "paired None [] = True"
| "paired (Some n) [] = False"
| "paired h (Unit _ _ # ms) = paired h ms"
| "paired None (Acq n # ms) = paired (Some n) ms"
| "paired (Some n) (Acq m # ms) = False"
| "paired None (Rel m # ms) = False"
| "paired (Some n) (Rel m # ms) = (n = m \<and> paired None ms)"

text \<open>An answer of the limiter that the \<^verbatim>\<open>except\<close> clause of the loop catches.\<close>

fun busy_answer :: "exn option \<Rightarrow> bool" where
  "busy_answer None = False"
| "busy_answer (Some e) = is_contention e"

text \<open>
  The events of probing the candidates \<open>cs\<close> one after the other, each answered by a
  caught exception, the first probe being the \<open>k\<close>-th of the process.
\<close>

fun busy_events :: "(nat \<Rightarrow> string \<Rightarrow> exn option) \<Rightarrow> nat \<Rightarrow> (int \<times> string) list \<Rightarrow> event list" where
  "busy_events lim k [] = []"
| "busy_events lim k ((gpu_id, name) # cs) =
     TryAcquire name 1 100 (lim k name) # Info (GpuBusy gpu_id) # busy_events lim (Suc k) cs"

text \<open>The candidate list that \<^verbatim>\<open>acquire_gpu\<close> builds from the worker and its ids.\<close>

definition candidates :: "string \<Rightarrow> int list \<Rightarrow> (int \<times> string) list" where
  "candidates worker_id ids = map (\<lambda>gpu_id. (gpu_id, limit_name worker_id gpu_id)) ids"

text \<open>\<open>mentions msg x\<close>: the text \<open>x\<close> occurs in \<open>msg\<close>.\<close>

fun starts_with :: "string \<Rightarrow> string \<Rightarrow> bool" where
  "starts_with s [] = True"
| "starts_with [] (p # ps) = False"
| "starts_with (c # cs) (p # ps) = (c = p \<and> starts_with cs ps)"

fun mentions :: "string \<Rightarrow> string \<Rightarrow> bool" where
  "mentions [] x = (x = [])"
| "mentions (c # cs) x = (starts_with (c # cs) x \<or> mentions cs x)"

subsection \<open>Example worlds\<close>

text \<open>
  A world at the start of a process, and limiters whose answers do not change over time:
  every name of \<open>taken\<close> times out, every other name is free.
\<close>

definition start_world :: "(string \<rightharpoonup> string) \<Rightarrow> (nat \<Rightarrow> string \<Rightarrow> exn option) \<Rightarrow> world" where
  "start_world env lim =
     \<lparr>environ = env, limiter = lim, clock = 0, rand = (\<lambda>k. k), draws = 0, trace = []\<rparr>"

definition steady :: "string list \<Rightarrow> nat \<Rightarrow> string \<Rightarrow> exn option" where
  "steady taken k name =
     (if name \<in> set taken then Some AcquireConcurrencySlotTimeoutError else None)"

definition worker_env :: "string \<Rightarrow> string \<Rightarrow> (string \<rightharpoonup> string)" where
  "worker_env worker_id gpu_ids = [''WORKER_ID'' \<mapsto> worker_id, ''WORKER_GPU_IDS'' \<mapsto> gpu_ids]"

text \<open>Scenario A of the specification: slot 0 of worker-1 busy, slot 1 free.\<close>

definition scenario_A :: world where
  "scenario_A = start_world (worker_env ''worker-1'' ''0,1'') (steady [''gpu-worker-1-0''])"

text \<open>Scenario B: both slots of worker-1 busy.\<close>

definition scenario_B :: world where
  "scenario_B =
     start_world (worker_env ''worker-1'' ''0,1'') (steady [''gpu-worker-1-0'', ''gpu-worker-1-1''])"

text \<open>Ids declared as 2,0,1, every slot busy.\<close>

definition scenario_201 :: world where
  "scenario_201 =
     start_world (worker_env ''worker-1'' ''2,0,1'')
       (steady [''gpu-worker-1-0'', ''gpu-worker-1-1'', ''gpu-worker-1-2''])"

text \<open>Both slots free.\<close>

definition scenario_free :: world where
  "scenario_free = start_world (worker_env ''worker-1'' ''0,1'') (steady [])"

text \<open>Slot 0 busy, the probe of slot 1 fails with an exception of another class.\<close>

definition scenario_fault :: world where
  "scenario_fault =
     start_world (worker_env ''worker-1'' ''0,1,2'')
       (\<lambda>k name. if name = ''gpu-worker-1-0'' then Some ConcurrencySlotAcquisitionError
                  else if name = ''gpu-worker-1-1'' then Some (OtherError ''service unreachable'')
                  else None)"

text \<open>A worker whose only GPU is number 1, free.\<close>

definition scenario_gpu1 :: world where
  "scenario_gpu1 = start_world (worker_env ''worker-1'' ''1'') (steady [])"

text \<open>An empty worker identity, and configurations that do not load.\<close>

definition scenario_empty_worker :: world where
  "scenario_empty_worker = start_world (worker_env [] ''0'') (steady [])"

definition scenario_bad_token :: world where
  "scenario_bad_token = start_world (worker_env ''worker-1'' ''0,x'') (steady [])"

section \<open>Properties\<close>

subsection \<open>Splitting and parsing\<close>

lemma split_acc_append:
  "sep \<notin> set t \<Longrightarrow> split_acc sep cur (t @ rest) = split_acc sep (cur @ t) rest"
  by (induction t arbitrary: cur) auto

lemma split_acc_join:
  "ts \<noteq> [] \<Longrightarrow> \<forall>t\<in>set ts. sep \<notin> set t \<Longrightarrow>
   split_acc sep cur (join sep ts) = (cur @ hd ts) # tl ts"
proof (induction sep ts arbitrary: cur rule: join.induct)
  case (1 sep)
  then show ?case by simp
next
  case (2 sep t)
  then show ?case using split_acc_append [of sep t cur "[]"] by simp
next
  case (3 sep t u ts)
  from "3.prems" have t: "sep \<notin> set t" by simp
  have "split_acc sep cur (join sep (t # u # ts)) =
        split_acc sep (cur @ t) (sep # join sep (u # ts))"
    using split_acc_append [OF t] by simp
  also have "\<dots> = (cur @ t) # split_acc sep [] (join sep (u # ts))" by simp
  also have "split_acc sep [] (join sep (u # ts)) = u # ts"
    using "3.IH" [of "[]"] "3.prems" by simp
  finally show ?case by simp
qed

lemma split_join:
  "ts \<noteq> [] \<Longrightarrow> \<forall>t\<in>set ts. sep \<notin> set t \<Longrightarrow> split (join sep ts) sep = ts"
  by (simp add: split_def split_acc_join)

lemma join_nonempty: "ts \<noteq> [] \<Longrightarrow> \<forall>t\<in>set ts. t \<noteq> [] \<Longrightarrow> join sep ts \<noteq> []"
  by (induction sep ts rule: join.induct) auto

lemma digit_not_special:
  "is_digit c \<Longrightarrow>
   c \<noteq> CHR '','' \<and> c \<noteq> CHR ''-'' \<and> c \<noteq> CHR ''+'' \<and> c \<noteq> CHR ''_'' \<and> \<not> is_space c"
  by (auto simp: is_digit_def is_space_def)

lemma digit_run_digits:
  "list_all is_digit ds \<Longrightarrow>
   digit_run acc ds = Some (foldl (\<lambda>a c. 10 * a + digit_val c) acc ds)"
  by (induction ds arbitrary: acc) auto

lemma digits_decimal:
  "ds \<noteq> [] \<Longrightarrow> list_all is_digit ds \<Longrightarrow> digits ds = Some (decimal ds)"
  by (cases ds) (auto simp: digits_def decimal_def digit_run_digits)

lemma int_token_no_comma: "int_token t \<Longrightarrow> CHR '','' \<notin> set t"
  by (cases t) (auto simp: int_token_def list_all_iff is_digit_def split: if_splits)

lemma int_token_nonempty: "int_token t \<Longrightarrow> t \<noteq> []"
  by (auto simp: int_token_def)

lemma int_token_ends:
  assumes "int_token t"
  shows "\<not> is_space (hd t)" and "\<not> is_space (last t)"
proof -
  from assms obtain c cs where t: "t = c # cs" by (cases t) (auto simp: int_token_def)
  show "\<not> is_space (hd t)"
    using assms t by (auto simp: int_token_def is_space_def is_digit_def split: if_splits)
  have "is_digit (last t)"
    using assms t by (auto simp: int_token_def list_all_iff split: if_splits)
  then show "\<not> is_space (last t)" by (simp add: digit_not_special)
qed

lemma dropWhile_hd: "xs \<noteq> [] \<Longrightarrow> \<not> P (hd xs) \<Longrightarrow> dropWhile P xs = xs"
  by (cases xs) auto

lemma strip_int_token: "int_token t \<Longrightarrow> strip t = t"
  using int_token_ends [of t] int_token_nonempty [of t]
  by (simp add: strip_def dropWhile_hd hd_rev)

lemma py_int_token: "int_token t \<Longrightarrow> py_int t = Some (token_value t)"
proof -
  assume a: "int_token t"
  then obtain c cs where t: "t = c # cs" by (cases t) (auto simp: int_token_def)
  show ?thesis
    using a t digit_not_special [of c]
    by (auto simp: py_int_def strip_int_token token_value_def int_token_def digits_decimal
             split: if_splits)
qed

lemma int_each_tokens: "\<forall>t\<in>set ts. int_token t \<Longrightarrow> int_each ts = Inr (map token_value ts)"
  by (induction ts) (auto simp: py_int_token)

text \<open>
  C10. A value of \<^verbatim>\<open>WORKER_GPU_IDS\<close> that is the comma-join of one or more integer
  tokens loads, and the result is the list of the tokens' values in the order written:
  a token with a minus sign gives a negative id, and equal tokens give equal entries
  (nothing is checked for sign, nothing is removed).
\<close>

theorem get_worker_gpu_ids_tokens:
  assumes "toks \<noteq> []" and "\<forall>t\<in>set toks. int_token t"
    and "env ''WORKER_GPU_IDS'' = Some (join CHR '','' toks)"
  shows "get_worker_gpu_ids env = Inr (map token_value toks)"
proof -
  have ne: "join CHR '','' toks \<noteq> []"
    using assms(1,2) by (intro join_nonempty) (auto dest: int_token_nonempty)
  have "split (join CHR '','' toks) CHR '','' = toks"
    using assms(1,2) by (intro split_join) (auto dest: int_token_no_comma)
  then show ?thesis
    using ne assms(2,3) by (simp add: get_worker_gpu_ids_def int_each_tokens)
qed

theorem get_worker_gpu_ids_tokens_witness:
  "get_worker_gpu_ids [''WORKER_GPU_IDS'' \<mapsto> ''-3,1,1''] = Inr [-3, 1, 1]"
proof -
  have 1: "[''-3'', ''1'', ''1''] \<noteq> ([] :: string list)" by simp
  have 2: "\<forall>t\<in>set [''-3'', ''1'', ''1'']. int_token t"
    by (simp add: int_token_def is_digit_def)
  have 3: "[''WORKER_GPU_IDS'' \<mapsto> ''-3,1,1''] ''WORKER_GPU_IDS'' =
           Some (join CHR '','' [''-3'', ''1'', ''1''])"
    by simp
  show ?thesis
    using get_worker_gpu_ids_tokens
            [of "[''-3'', ''1'', ''1'']" "[''WORKER_GPU_IDS'' \<mapsto> ''-3,1,1'']"] 1 2 3
    by (simp add: token_value_def decimal_def digit_val_def)
qed

subsection \<open>The probe loop\<close>

lemma probes_append [simp]: "probes (xs @ ys) = probes xs @ probes ys"
  by (induction xs rule: probes.induct) auto

lemma skeleton_append [simp]: "skeleton (xs @ ys) = skeleton xs @ skeleton ys"
  by (induction xs rule: skeleton.induct) auto

lemma printed_append [simp]: "printed (xs @ ys) = printed xs @ printed ys"
  by (induction xs rule: printed.induct) auto

lemma lease_events_append [simp]: "lease_events (xs @ ys) = lease_events xs @ lease_events ys"
  by (simp add: lease_events_def)

lemma concurrency_enter_eq:
  "concurrency_enter name occupy timeout_ms \<sigma> =
     (limiter \<sigma> (clock \<sigma>) name,
      \<sigma>\<lparr>clock := Suc (clock \<sigma>),
        trace := trace \<sigma> @ [TryAcquire name occupy timeout_ms (limiter \<sigma> (clock \<sigma>) name)]\<rparr>)"
  by (simp add: concurrency_enter_def Let_def emit_def)

lemma info_eq: "info r \<sigma> = \<sigma>\<lparr>trace := trace \<sigma> @ [Info r]\<rparr>"
  by (simp add: info_def emit_def)

lemma concurrency_exit_eq: "concurrency_exit name \<sigma> = \<sigma>\<lparr>trace := trace \<sigma> @ [Release name]\<rparr>"
  by (simp add: concurrency_exit_def emit_def)

lemmas ops = concurrency_enter_eq info_eq concurrency_exit_eq emit_def

lemma busy_answer_Some: "busy_answer a \<Longrightarrow> \<exists>e. a = Some e \<and> is_contention e"
  by (cases a) auto

lemma probe_loop_busy_step:
  assumes "busy_answer (limiter \<sigma> (clock \<sigma>) name)"
  shows "probe_loop w ((gpu_id, name) # rest) \<sigma> =
         probe_loop w rest
           (\<sigma>\<lparr>clock := Suc (clock \<sigma>),
              trace := trace \<sigma> @ [TryAcquire name 1 100 (limiter \<sigma> (clock \<sigma>) name),
                                    Info (GpuBusy gpu_id)]\<rparr>)"
  using busy_answer_Some [OF assms]
  by (auto simp: ops)

lemma probe_loop_skip:
  assumes "i \<le> length cs"
    and "\<forall>j<i. busy_answer (limiter \<sigma> (clock \<sigma> + j) (snd (cs ! j)))"
  shows "probe_loop w cs \<sigma> =
         probe_loop w (drop i cs)
           (\<sigma>\<lparr>clock := clock \<sigma> + i,
              trace := trace \<sigma> @ busy_events (limiter \<sigma>) (clock \<sigma>) (take i cs)\<rparr>)"
  using assms
proof (induction i arbitrary: cs \<sigma>)
  case 0
  then show ?case by simp
next
  case (Suc i)
  then obtain gpu_id name rest where cs: "cs = (gpu_id, name) # rest"
    by (cases cs) auto
  from Suc.prems(2) have b0: "busy_answer (limiter \<sigma> (clock \<sigma>) name)"
    using cs by (auto dest: spec [of _ 0])
  let ?\<sigma>1 = "\<sigma>\<lparr>clock := Suc (clock \<sigma>),
              trace := trace \<sigma> @ [TryAcquire name 1 100 (limiter \<sigma> (clock \<sigma>) name),
                                    Info (GpuBusy gpu_id)]\<rparr>"
  have len: "i \<le> length rest" using Suc.prems(1) cs by simp
  have busy: "\<forall>j<i. busy_answer (limiter ?\<sigma>1 (clock ?\<sigma>1 + j) (snd (rest ! j)))"
  proof (intro allI impI)
    fix j assume "j < i"
    then have "busy_answer (limiter \<sigma> (clock \<sigma> + Suc j) (snd (cs ! Suc j)))"
      using Suc.prems(2) by auto
    then show "busy_answer (limiter ?\<sigma>1 (clock ?\<sigma>1 + j) (snd (rest ! j)))"
      using cs by simp
  qed
  have "probe_loop w cs \<sigma> = probe_loop w rest ?\<sigma>1"
    unfolding cs by (rule probe_loop_busy_step [OF b0])
  also have "\<dots> = probe_loop w (drop i rest)
           (?\<sigma>1\<lparr>clock := clock ?\<sigma>1 + i,
              trace := trace ?\<sigma>1 @ busy_events (limiter ?\<sigma>1) (clock ?\<sigma>1) (take i rest)\<rparr>)"
    by (rule Suc.IH [OF len busy])
  finally show ?case by (simp add: cs)
qed

lemma probes_busy_events [simp]:
  "probes (busy_events lim k cs) = map (\<lambda>c. (snd c, 1, 100)) cs"
  by (induction lim k cs rule: busy_events.induct) auto

lemma skeleton_busy_events:
  "\<forall>j<length cs. busy_answer (lim (k + j) (snd (cs ! j))) \<Longrightarrow> skeleton (busy_events lim k cs) = []"
proof (induction lim k cs rule: busy_events.induct)
  case (1 lim k)
  then show ?case by simp
next
  case (2 lim k gpu_id name cs)
  from "2.prems" have "busy_answer (lim k name)" by (auto dest: spec [of _ 0])
  then obtain e where e: "lim k name = Some e" by (auto dest: busy_answer_Some)
  have "\<forall>j<length cs. busy_answer (lim (Suc k + j) (snd (cs ! j)))"
  proof (intro allI impI)
    fix j assume "j < length cs"
    then show "busy_answer (lim (Suc k + j) (snd (cs ! j)))"
      using "2.prems" [rule_format, of "Suc j"] by simp
  qed
  then show ?case using "2.IH" e by simp
qed


lemma probe_loop_free:
  assumes "i < length cs"
    and "\<forall>j<i. busy_answer (limiter \<sigma> (clock \<sigma> + j) (snd (cs ! j)))"
    and "limiter \<sigma> (clock \<sigma> + i) (snd (cs ! i)) = None"
  shows "probe_loop w cs \<sigma> =
         (Yield \<lparr>g_worker_id = w, g_gpu_id = fst (cs ! i), g_limit_name = snd (cs ! i),
                 g_rest = drop (Suc i) cs\<rparr>,
          \<sigma>\<lparr>clock := clock \<sigma> + Suc i,
            trace := trace \<sigma> @ busy_events (limiter \<sigma>) (clock \<sigma>) (take i cs) @
                     [TryAcquire (snd (cs ! i)) 1 100 None, Info (AcquiredGpu (fst (cs ! i)) w)]\<rparr>)"
proof -
  obtain gpu_id name where ci: "cs ! i = (gpu_id, name)" by (cases "cs ! i")
  have d: "drop i cs = (gpu_id, name) # drop (Suc i) cs"
    using assms(1) ci by (simp add: Cons_nth_drop_Suc [symmetric])
  show ?thesis
    using assms(3) unfolding probe_loop_skip [OF less_imp_le [OF assms(1)] assms(2)] d
    by (simp add: ci ops)
qed

lemma probe_loop_fault:
  assumes "i < length cs"
    and "\<forall>j<i. busy_answer (limiter \<sigma> (clock \<sigma> + j) (snd (cs ! j)))"
    and "limiter \<sigma> (clock \<sigma> + i) (snd (cs ! i)) = Some e" and "\<not> is_contention e"
  shows "probe_loop w cs \<sigma> =
         (Raise e,
          \<sigma>\<lparr>clock := clock \<sigma> + Suc i,
            trace := trace \<sigma> @ busy_events (limiter \<sigma>) (clock \<sigma>) (take i cs) @
                     [TryAcquire (snd (cs ! i)) 1 100 (Some e)]\<rparr>)"
proof -
  obtain gpu_id name where ci: "cs ! i = (gpu_id, name)" by (cases "cs ! i")
  have d: "drop i cs = (gpu_id, name) # drop (Suc i) cs"
    using assms(1) ci by (simp add: Cons_nth_drop_Suc [symmetric])
  show ?thesis
    using assms(3,4) unfolding probe_loop_skip [OF less_imp_le [OF assms(1)] assms(2)] d
    by (simp add: ci ops)
qed

lemma probe_loop_all_busy:
  assumes "\<forall>j<length cs. busy_answer (limiter \<sigma> (clock \<sigma> + j) (snd (cs ! j)))"
  shows "probe_loop w cs \<sigma> =
         (Raise (RuntimeError (''No available GPUs on worker '' @ w)),
          \<sigma>\<lparr>clock := clock \<sigma> + length cs,
            trace := trace \<sigma> @ busy_events (limiter \<sigma>) (clock \<sigma>) cs\<rparr>)"
  using probe_loop_skip [OF le_refl assms, of w] by simp

lemma probe_loop_probes_prefix:
  "\<exists>k\<le>length cs. probes (trace (snd (probe_loop w cs \<sigma>))) =
      probes (trace \<sigma>) @ map (\<lambda>c. (snd c, 1, 100)) (take k cs)"
proof (induction cs arbitrary: \<sigma>)
  case Nil
  then show ?case by simp
next
  case (Cons c cs)
  obtain gpu_id name where c: "c = (gpu_id, name)" by (cases c)
  show ?case
  proof (cases "busy_answer (limiter \<sigma> (clock \<sigma>) name)")
    case True
    let ?\<sigma>1 = "\<sigma>\<lparr>clock := Suc (clock \<sigma>),
              trace := trace \<sigma> @ [TryAcquire name 1 100 (limiter \<sigma> (clock \<sigma>) name),
                                    Info (GpuBusy gpu_id)]\<rparr>"
    from Cons.IH [of ?\<sigma>1] obtain k where k: "k \<le> length cs"
      "probes (trace (snd (probe_loop w cs ?\<sigma>1))) =
         probes (trace ?\<sigma>1) @ map (\<lambda>c. (snd c, 1, 100)) (take k cs)" by blast
    have step: "probe_loop w (c # cs) \<sigma> = probe_loop w cs ?\<sigma>1"
      unfolding c by (rule probe_loop_busy_step [OF True])
    have "probes (trace (snd (probe_loop w (c # cs) \<sigma>))) =
          probes (trace \<sigma>) @ map (\<lambda>c. (snd c, 1, 100)) (take (Suc k) (c # cs))"
      unfolding step using k(2) by (simp add: c)
    with k(1) show ?thesis by (intro exI [of _ "Suc k"]) simp
  next
    case False
    then have "probes (trace (snd (probe_loop w (c # cs) \<sigma>))) =
          probes (trace \<sigma>) @ map (\<lambda>c. (snd c, 1, 100)) (take (Suc 0) (c # cs))"
      by (cases "limiter \<sigma> (clock \<sigma>) name")
         (auto simp: c ops)
    then show ?thesis by (intro exI [of _ "Suc 0"]) simp
  qed
qed

lemma acquire_gpu_configured:
  assumes "environ \<sigma> ''WORKER_ID'' = Some w" and "get_worker_gpu_ids (environ \<sigma>) = Inr ids"
  shows "acquire_gpu \<sigma> =
         probe_loop w (candidates w ids)
           (\<sigma>\<lparr>trace := trace \<sigma> @ [Info (WorkerHasGpus w ids),
                                   Info (LimitNamesToTry (candidates w ids))]\<rparr>)"
  using assms by (simp add: acquire_gpu_def candidates_def ops Let_def)

lemma candidates_nth [simp]:
  "j < length ids \<Longrightarrow> candidates w ids ! j = (ids ! j, limit_name w (ids ! j))"
  by (simp add: candidates_def)

lemma candidates_length [simp]: "length (candidates w ids) = length ids"
  by (simp add: candidates_def)

lemma candidates_take: "take k (candidates w ids) = candidates w (take k ids)"
  by (simp add: candidates_def take_map)

lemma candidates_drop: "drop k (candidates w ids) = candidates w (drop k ids)"
  by (simp add: candidates_def drop_map)

lemma map_candidates [simp]:
  "map (\<lambda>c. (snd c, occupy, timeout_ms)) (candidates w ids) =
   map (\<lambda>gpu_id. (limit_name w gpu_id, occupy, timeout_ms)) ids"
  by (simp add: candidates_def)


lemma acquire_gpu_all_busy:
  assumes "environ \<sigma> ''WORKER_ID'' = Some w" and "get_worker_gpu_ids (environ \<sigma>) = Inr ids"
    and "\<forall>j<length ids. busy_answer (limiter \<sigma> (clock \<sigma> + j) (limit_name w (ids ! j)))"
  shows "acquire_gpu \<sigma> =
         (Raise (RuntimeError (''No available GPUs on worker '' @ w)),
          \<sigma>\<lparr>clock := clock \<sigma> + length ids,
            trace := trace \<sigma> @ [Info (WorkerHasGpus w ids),
                                  Info (LimitNamesToTry (candidates w ids))] @
                     busy_events (limiter \<sigma>) (clock \<sigma>) (candidates w ids)\<rparr>)"
proof -
  let ?\<sigma>0 = "\<sigma>\<lparr>trace := trace \<sigma> @ [Info (WorkerHasGpus w ids),
                                   Info (LimitNamesToTry (candidates w ids))]\<rparr>"
  have "\<forall>j<length (candidates w ids).
          busy_answer (limiter ?\<sigma>0 (clock ?\<sigma>0 + j) (snd (candidates w ids ! j)))"
    using assms(3) by simp
  from probe_loop_all_busy [OF this, of w] show ?thesis
    by (simp add: acquire_gpu_configured [OF assms(1,2)])
qed

lemma busy_events_no_marks:
  assumes "\<forall>j<length ids. busy_answer (lim (k + j) (limit_name w (ids ! j)))"
  shows "skeleton (busy_events lim k (candidates w ids)) = []"
  by (rule skeleton_busy_events) (use assms in simp)

lemma starts_with_self: "starts_with x x"
  by (induction x) auto

lemma mentions_self: "mentions x x"
  by (cases x) (auto simp: starts_with_self)

lemma mentions_append: "mentions (p @ x) x"
  by (induction p) (auto simp: mentions_self)

subsection \<open>Entering the context manager\<close>

lemma contextmanager_enter_eq:
  "contextmanager_enter \<sigma> =
     (case acquire_gpu \<sigma> of
        (Yield g, \<sigma>1) \<Rightarrow> (Inr g, \<sigma>1)
      | (Raise e, \<sigma>1) \<Rightarrow> (Inl e, \<sigma>1)
      | (StopIteration, \<sigma>1) \<Rightarrow> (Inl (RuntimeError ''generator didn't yield''), \<sigma>1))"
  by (simp add: contextmanager_enter_def)

text \<open>
  C1. With a configuration that loads, if the probes of the candidates before position
  \<open>i\<close> are answered by a caught slot-acquisition exception and the probe of candidate \<open>i\<close>
  is granted, entering the context manager yields a generator suspended on candidate
  \<open>i\<close> (its id is what the block receives), the limiter has been entered for the first
  \<open>i + 1\<close> declared ids in declared order and for nothing else, and the one slot granted
  is that of candidate \<open>i\<close>.
\<close>

theorem acquire_first_fit:
  assumes "environ \<sigma> ''WORKER_ID'' = Some w" and "get_worker_gpu_ids (environ \<sigma>) = Inr ids"
    and "i < length ids"
    and "\<forall>j<i. busy_answer (limiter \<sigma> (clock \<sigma> + j) (limit_name w (ids ! j)))"
    and "limiter \<sigma> (clock \<sigma> + i) (limit_name w (ids ! i)) = None"
  shows "\<exists>\<sigma>'. contextmanager_enter \<sigma> =
           (Inr \<lparr>g_worker_id = w, g_gpu_id = ids ! i, g_limit_name = limit_name w (ids ! i),
                 g_rest = candidates w (drop (Suc i) ids)\<rparr>, \<sigma>')
         \<and> probes (trace \<sigma>') =
             probes (trace \<sigma>) @ map (\<lambda>gpu_id. (limit_name w gpu_id, 1, 100)) (take (Suc i) ids)
         \<and> skeleton (trace \<sigma>') = skeleton (trace \<sigma>) @ [Acq (limit_name w (ids ! i))]"
proof -
  let ?cs = "candidates w ids"
  let ?\<sigma>0 = "\<sigma>\<lparr>trace := trace \<sigma> @ [Info (WorkerHasGpus w ids), Info (LimitNamesToTry ?cs)]\<rparr>"
  have len: "i < length ?cs" using assms(3) by simp
  have busy: "\<forall>j<i. busy_answer (limiter ?\<sigma>0 (clock ?\<sigma>0 + j) (snd (?cs ! j)))"
    using assms(3,4) by simp
  have free: "limiter ?\<sigma>0 (clock ?\<sigma>0 + i) (snd (?cs ! i)) = None"
    using assms(3,5) by simp
  have quiet: "skeleton (busy_events (limiter \<sigma>) (clock \<sigma>) (candidates w (take i ids))) = []"
    by (rule busy_events_no_marks) (use assms(3,4) in simp)
  have tk: "take (Suc i) ids = take i ids @ [ids ! i]"
    using assms(3) by (simp add: take_Suc_conv_app_nth)
  show ?thesis
    unfolding contextmanager_enter_eq acquire_gpu_configured [OF assms(1,2)]
      probe_loop_free [OF len busy free]
    using assms(3) quiet by (simp add: candidates_take candidates_drop tk)
qed


lemma scenario_names:
  "limit_name ''worker-1'' 0 = ''gpu-worker-1-0''"
  "limit_name ''worker-1'' 1 = ''gpu-worker-1-1''"
  "limit_name ''worker-1'' 2 = ''gpu-worker-1-2''"
  by code_simp+

lemma all_less_Suc: "(\<forall>j<Suc n. P j) \<longleftrightarrow> P n \<and> (\<forall>j<n. P j)"
  by (auto simp: less_Suc_eq)

theorem acquire_first_fit_witness:
  "fst (contextmanager_enter scenario_A) =
     Inr \<lparr>g_worker_id = ''worker-1'', g_gpu_id = 1, g_limit_name = ''gpu-worker-1-1'',
           g_rest = []\<rparr>
   \<and> probes (trace (snd (contextmanager_enter scenario_A))) =
     [(''gpu-worker-1-0'', 1, 100), (''gpu-worker-1-1'', 1, 100)]"
proof -
  have 1: "environ scenario_A ''WORKER_ID'' = Some ''worker-1''"
    by (simp add: scenario_A_def start_world_def worker_env_def)
  have 2: "get_worker_gpu_ids (environ scenario_A) = Inr [0, 1]"
    by code_simp
  have 3: "Suc 0 < length [0::int, 1]"
    by simp
  have 4: "\<forall>j<Suc 0. busy_answer (limiter scenario_A (clock scenario_A + j)
                                  (limit_name ''worker-1'' ([0, 1] ! j)))"
    by (simp add: scenario_names scenario_A_def start_world_def steady_def)
  have 5: "limiter scenario_A (clock scenario_A + Suc 0)
             (limit_name ''worker-1'' ([0, 1] ! Suc 0)) = None"
    by (simp add: scenario_names scenario_A_def start_world_def steady_def)
  have 6: "trace scenario_A = []"
    by (simp add: scenario_A_def start_world_def)
  from acquire_first_fit [OF 1 2 3 4 5] show ?thesis
    by (auto simp: scenario_names candidates_def 6)
qed

text \<open>
  C3, as the code has it. When every probe is answered by a caught slot-acquisition
  exception, entering the context manager raises \<^verbatim>\<open>RuntimeError\<close> with the message
  \<^verbatim>\<open>No available GPUs on worker\<close> followed by the worker identity; the message names
  the worker.
\<close>

theorem unavailable_names_worker:
  assumes "environ \<sigma> ''WORKER_ID'' = Some w" and "get_worker_gpu_ids (environ \<sigma>) = Inr ids"
    and "\<forall>j<length ids. busy_answer (limiter \<sigma> (clock \<sigma> + j) (limit_name w (ids ! j)))"
  shows "fst (contextmanager_enter \<sigma>) =
           Inl (RuntimeError (''No available GPUs on worker '' @ w))
         \<and> mentions (''No available GPUs on worker '' @ w) w"
  unfolding contextmanager_enter_eq acquire_gpu_all_busy [OF assms]
  using mentions_append [of "''No available GPUs on worker ''" w] by simp

lemma scenario_B_facts:
  "environ scenario_B ''WORKER_ID'' = Some ''worker-1''"
  "get_worker_gpu_ids (environ scenario_B) = Inr [0, 1]"
  "\<forall>j<length [0::int, 1]. busy_answer (limiter scenario_B (clock scenario_B + j)
                                  (limit_name ''worker-1'' ([0, 1] ! j)))"
  "trace scenario_B = []"
proof -
  show "environ scenario_B ''WORKER_ID'' = Some ''worker-1''"
    by (simp add: scenario_B_def start_world_def worker_env_def)
  show "get_worker_gpu_ids (environ scenario_B) = Inr [0, 1]"
    by code_simp
  show "\<forall>j<length [0::int, 1]. busy_answer (limiter scenario_B (clock scenario_B + j)
                                  (limit_name ''worker-1'' ([0, 1] ! j)))"
    by (simp add: all_less_Suc scenario_names scenario_B_def start_world_def steady_def)
  show "trace scenario_B = []"
    by (simp add: scenario_B_def start_world_def)
qed

theorem unavailable_names_worker_witness:
  "fst (contextmanager_enter scenario_B) =
     Inl (RuntimeError ''No available GPUs on worker worker-1'')
   \<and> mentions ''No available GPUs on worker worker-1'' ''worker-1''"
  using unavailable_names_worker [OF scenario_B_facts(1,2,3)] by simp

text \<open>
  C3 as stated fails in Scenario B: the error raised for worker-1 with candidates 0 and 1,
  both busy, is the message below, in which the id 0 does not occur.
\<close>

theorem unavailable_omits_candidates:
  "fst (contextmanager_enter scenario_B) =
     Inl (RuntimeError ''No available GPUs on worker worker-1'')
   \<and> \<not> mentions ''No available GPUs on worker worker-1'' (str_int 0)"
  by code_simp

lemma budget_ms_probes: "budget_ms (map (\<lambda>gpu_id. (f gpu_id, occupy, t)) ids) = length ids * t"
  by (induction ids) (auto simp: budget_ms_def)

lemma acquire_gpu_probes_prefix:
  assumes "environ \<sigma> ''WORKER_ID'' = Some w" and "get_worker_gpu_ids (environ \<sigma>) = Inr ids"
  shows "\<exists>k\<le>length ids. probes (trace (snd (acquire_gpu \<sigma>))) =
           probes (trace \<sigma>) @ map (\<lambda>gpu_id. (limit_name w gpu_id, 1, 100)) (take k ids)"
proof -
  let ?\<sigma>0 = "\<sigma>\<lparr>trace := trace \<sigma> @ [Info (WorkerHasGpus w ids),
                                   Info (LimitNamesToTry (candidates w ids))]\<rparr>"
  from probe_loop_probes_prefix [of "candidates w ids" w ?\<sigma>0]
  obtain k where "k \<le> length ids"
    "probes (trace (snd (probe_loop w (candidates w ids) ?\<sigma>0))) =
     probes (trace ?\<sigma>0) @ map (\<lambda>c. (snd c, 1, 100)) (take k (candidates w ids))"
    by auto
  then show ?thesis
    unfolding acquire_gpu_configured [OF assms]
    by (intro exI [of _ k]) (simp add: candidates_take)
qed

lemma contextmanager_enter_trace:
  "snd (contextmanager_enter \<sigma>) = snd (acquire_gpu \<sigma>)"
  by (simp add: contextmanager_enter_def split: prod.splits gen_outcome.splits)

text \<open>
  C4. With a configuration of \<open>N\<close> ids that loads, entering the context manager enters
  the limiter for the first \<open>k\<close> declared ids, once each and in order, for some
  \<open>k \<le> N\<close>, every time with \<open>occupy = 1\<close> and a timeout of 100 ms, so the timeouts add up
  to at most \<open>N * 100\<close> ms. If all \<open>N\<close> probes are answered by a caught slot-acquisition
  exception, the call raises the \<^verbatim>\<open>RuntimeError\<close> after exactly these \<open>N\<close> probes, and
  no slot has been granted or released. The functions are total, so the call returns.
\<close>

theorem acquire_bounded:
  assumes "environ \<sigma> ''WORKER_ID'' = Some w" and "get_worker_gpu_ids (environ \<sigma>) = Inr ids"
  shows "(\<exists>k\<le>length ids.
            probes (trace (snd (contextmanager_enter \<sigma>))) =
              probes (trace \<sigma>) @ map (\<lambda>gpu_id. (limit_name w gpu_id, 1, 100)) (take k ids)
            \<and> budget_ms (map (\<lambda>gpu_id. (limit_name w gpu_id, 1, 100)) (take k ids))
                \<le> length ids * 100)
       \<and> ((\<forall>j<length ids. busy_answer (limiter \<sigma> (clock \<sigma> + j) (limit_name w (ids ! j))))
           \<longrightarrow> fst (contextmanager_enter \<sigma>) =
                 Inl (RuntimeError (''No available GPUs on worker '' @ w))
             \<and> probes (trace (snd (contextmanager_enter \<sigma>))) =
                 probes (trace \<sigma>) @ map (\<lambda>gpu_id. (limit_name w gpu_id, 1, 100)) ids
             \<and> clock (snd (contextmanager_enter \<sigma>)) = clock \<sigma> + length ids
             \<and> lease_events (trace (snd (contextmanager_enter \<sigma>))) = lease_events (trace \<sigma>))"
proof (intro conjI impI)
  from acquire_gpu_probes_prefix [OF assms] obtain k where k: "k \<le> length ids"
    "probes (trace (snd (acquire_gpu \<sigma>))) =
       probes (trace \<sigma>) @ map (\<lambda>gpu_id. (limit_name w gpu_id, 1, 100)) (take k ids)"
    by blast
  have "budget_ms (map (\<lambda>gpu_id. (limit_name w gpu_id, 1, 100)) (take k ids)) \<le> length ids * 100"
    using k(1) by (simp add: budget_ms_probes)
  with k show "\<exists>k\<le>length ids.
            probes (trace (snd (contextmanager_enter \<sigma>))) =
              probes (trace \<sigma>) @ map (\<lambda>gpu_id. (limit_name w gpu_id, 1, 100)) (take k ids)
            \<and> budget_ms (map (\<lambda>gpu_id. (limit_name w gpu_id, 1, 100)) (take k ids))
                \<le> length ids * 100"
    unfolding contextmanager_enter_trace by blast
next
  assume busy: "\<forall>j<length ids. busy_answer (limiter \<sigma> (clock \<sigma> + j) (limit_name w (ids ! j)))"
  note eq = acquire_gpu_all_busy [OF assms busy]
  have quiet: "skeleton (busy_events (limiter \<sigma>) (clock \<sigma>) (candidates w ids)) = []"
    by (rule busy_events_no_marks) (use busy in simp)
  show "fst (contextmanager_enter \<sigma>) = Inl (RuntimeError (''No available GPUs on worker '' @ w))"
    unfolding contextmanager_enter_eq eq by simp
  show "probes (trace (snd (contextmanager_enter \<sigma>))) =
        probes (trace \<sigma>) @ map (\<lambda>gpu_id. (limit_name w gpu_id, 1, 100)) ids"
    unfolding contextmanager_enter_trace eq by simp
  show "clock (snd (contextmanager_enter \<sigma>)) = clock \<sigma> + length ids"
    unfolding contextmanager_enter_trace eq by simp
  show "lease_events (trace (snd (contextmanager_enter \<sigma>))) = lease_events (trace \<sigma>)"
    unfolding contextmanager_enter_trace eq using quiet by (simp add: lease_events_def)
qed

lemma scenario_201_facts:
  "environ scenario_201 ''WORKER_ID'' = Some ''worker-1''"
  "get_worker_gpu_ids (environ scenario_201) = Inr [2, 0, 1]"
  "\<forall>j<length [2::int, 0, 1]. busy_answer (limiter scenario_201 (clock scenario_201 + j)
                                  (limit_name ''worker-1'' ([2, 0, 1] ! j)))"
  "trace scenario_201 = []" "clock scenario_201 = 0"
proof -
  show "environ scenario_201 ''WORKER_ID'' = Some ''worker-1''"
    by (simp add: scenario_201_def start_world_def worker_env_def)
  show "get_worker_gpu_ids (environ scenario_201) = Inr [2, 0, 1]"
    by code_simp
  show "\<forall>j<length [2::int, 0, 1]. busy_answer (limiter scenario_201 (clock scenario_201 + j)
                                  (limit_name ''worker-1'' ([2, 0, 1] ! j)))"
    by (simp add: all_less_Suc scenario_names scenario_201_def start_world_def steady_def)
  show "trace scenario_201 = []" "clock scenario_201 = 0"
    by (simp_all add: scenario_201_def start_world_def)
qed

theorem acquire_bounded_witness:
  "fst (contextmanager_enter scenario_201) =
     Inl (RuntimeError ''No available GPUs on worker worker-1'')
   \<and> probes (trace (snd (contextmanager_enter scenario_201))) =
     [(''gpu-worker-1-2'', 1, 100), (''gpu-worker-1-0'', 1, 100), (''gpu-worker-1-1'', 1, 100)]
   \<and> clock (snd (contextmanager_enter scenario_201)) = 3
   \<and> lease_events (trace (snd (contextmanager_enter scenario_201))) = []"
  using acquire_bounded [OF scenario_201_facts(1,2)] scenario_201_facts(3,4,5)
  by (simp add: scenario_names lease_events_def)

text \<open>
  C5. With a configuration that loads, let candidate \<open>i\<close> be the first whose probe is
  not answered by one of the two caught slot-acquisition exceptions. Then the limiter is
  entered for the first \<open>i + 1\<close> declared ids and for no later one; and if the answer to
  that probe is an exception \<open>e\<close> (of any other class), entering the context manager
  raises \<open>e\<close> itself, with no slot granted or released.
\<close>

theorem other_failure_aborts:
  assumes "environ \<sigma> ''WORKER_ID'' = Some w" and "get_worker_gpu_ids (environ \<sigma>) = Inr ids"
    and "i < length ids"
    and "\<forall>j<i. busy_answer (limiter \<sigma> (clock \<sigma> + j) (limit_name w (ids ! j)))"
    and "\<not> busy_answer (limiter \<sigma> (clock \<sigma> + i) (limit_name w (ids ! i)))"
  shows "probes (trace (snd (contextmanager_enter \<sigma>))) =
           probes (trace \<sigma>) @ map (\<lambda>gpu_id. (limit_name w gpu_id, 1, 100)) (take (Suc i) ids)
       \<and> (\<forall>e. limiter \<sigma> (clock \<sigma> + i) (limit_name w (ids ! i)) = Some e \<longrightarrow>
              fst (contextmanager_enter \<sigma>) = Inl e
            \<and> lease_events (trace (snd (contextmanager_enter \<sigma>))) = lease_events (trace \<sigma>))"
proof -
  let ?cs = "candidates w ids"
  let ?\<sigma>0 = "\<sigma>\<lparr>trace := trace \<sigma> @ [Info (WorkerHasGpus w ids), Info (LimitNamesToTry ?cs)]\<rparr>"
  have len: "i < length ?cs" using assms(3) by simp
  have busy: "\<forall>j<i. busy_answer (limiter ?\<sigma>0 (clock ?\<sigma>0 + j) (snd (?cs ! j)))"
    using assms(3,4) by simp
  have quiet: "skeleton (busy_events (limiter \<sigma>) (clock \<sigma>) (candidates w (take i ids))) = []"
    by (rule busy_events_no_marks) (use assms(3,4) in simp)
  have tk: "take (Suc i) ids = take i ids @ [ids ! i]"
    using assms(3) by (simp add: take_Suc_conv_app_nth)
  show ?thesis
  proof (cases "limiter \<sigma> (clock \<sigma> + i) (limit_name w (ids ! i))")
    case None
    then have free: "limiter ?\<sigma>0 (clock ?\<sigma>0 + i) (snd (?cs ! i)) = None"
      using assms(3) by simp
    show ?thesis
      unfolding contextmanager_enter_eq acquire_gpu_configured [OF assms(1,2)]
        probe_loop_free [OF len busy free]
      using assms(3) None by (simp add: candidates_take tk)
  next
    case (Some e)
    then have fault: "limiter ?\<sigma>0 (clock ?\<sigma>0 + i) (snd (?cs ! i)) = Some e"
      using assms(3) by simp
    have other: "\<not> is_contention e"
      using assms(5) Some by simp
    show ?thesis
      unfolding contextmanager_enter_eq acquire_gpu_configured [OF assms(1,2)]
        probe_loop_fault [OF len busy fault other]
      using assms(3) quiet Some by (simp add: candidates_take tk lease_events_def)
  qed
qed

theorem other_failure_aborts_witness:
  "fst (contextmanager_enter scenario_fault) = Inl (OtherError ''service unreachable'')
   \<and> probes (trace (snd (contextmanager_enter scenario_fault))) =
     [(''gpu-worker-1-0'', 1, 100), (''gpu-worker-1-1'', 1, 100)]
   \<and> lease_events (trace (snd (contextmanager_enter scenario_fault))) = []"
proof -
  have 1: "environ scenario_fault ''WORKER_ID'' = Some ''worker-1''"
    by (simp add: scenario_fault_def start_world_def worker_env_def)
  have 2: "get_worker_gpu_ids (environ scenario_fault) = Inr [0, 1, 2]"
    by code_simp
  have 3: "Suc 0 < length [0::int, 1, 2]"
    by simp
  have 4: "\<forall>j<Suc 0. busy_answer (limiter scenario_fault (clock scenario_fault + j)
                                  (limit_name ''worker-1'' ([0, 1, 2] ! j)))"
    by (simp add: scenario_names scenario_fault_def start_world_def)
  have 5: "limiter scenario_fault (clock scenario_fault + Suc 0)
             (limit_name ''worker-1'' ([0, 1, 2] ! Suc 0)) = Some (OtherError ''service unreachable'')"
    by (simp add: scenario_names scenario_fault_def start_world_def)
  have 6: "\<not> busy_answer (limiter scenario_fault (clock scenario_fault + Suc 0)
             (limit_name ''worker-1'' ([0, 1, 2] ! Suc 0)))"
    unfolding 5 by simp
  have 7: "trace scenario_fault = []"
    by (simp add: scenario_fault_def start_world_def)
  from other_failure_aborts [OF 1 2 3 4 6] 5 show ?thesis
    by (simp add: scenario_names 7 lease_events_def)
qed


lemma int_each_error: "int_each ts = Inl e \<Longrightarrow> is_ValueError e"
  by (induction ts arbitrary: e) (auto split: option.splits sum.splits)

lemma int_each_rejects: "t \<in> set ts \<Longrightarrow> py_int t = None \<Longrightarrow> \<exists>e. int_each ts = Inl e"
  by (induction ts) (auto split: option.splits sum.splits)

lemma get_worker_gpu_ids_error: "get_worker_gpu_ids env = Inl e \<Longrightarrow> is_ValueError e"
  by (auto simp: get_worker_gpu_ids_def Let_def split: if_splits dest: int_each_error)

lemma get_worker_gpu_ids_rejects:
  assumes "env ''WORKER_GPU_IDS'' = None \<or> env ''WORKER_GPU_IDS'' = Some []
         \<or> (\<exists>v t. env ''WORKER_GPU_IDS'' = Some v \<and> t \<in> set (split v CHR '','') \<and> py_int t = None)"
  shows "\<exists>e. get_worker_gpu_ids env = Inl e"
  using assms by (auto simp: get_worker_gpu_ids_def Let_def dest: int_each_rejects)

lemma with_acquire_gpu_enter_fails:
  "contextmanager_enter \<sigma> = (Inl e, \<sigma>') \<Longrightarrow> with_acquire_gpu block \<sigma> = (Inl e, \<sigma>')"
  by (simp add: with_acquire_gpu_def)

text \<open>
  C6, as the code has it. If \<^verbatim>\<open>WORKER_ID\<close> is unset, or \<^verbatim>\<open>WORKER_GPU_IDS\<close> is unset or
  empty, or one of its comma-separated tokens is rejected by \<^verbatim>\<open>int\<close>, then entering the
  context manager raises a \<^verbatim>\<open>ValueError\<close> and leaves the world as it was: the limiter
  has not been entered, nothing has been logged, and the block of a \<^verbatim>\<open>with\<close> statement
  does not run.
\<close>

theorem config_error_before_limiter:
  assumes "environ \<sigma> ''WORKER_ID'' = None
         \<or> environ \<sigma> ''WORKER_GPU_IDS'' = None \<or> environ \<sigma> ''WORKER_GPU_IDS'' = Some []
         \<or> (\<exists>v t. environ \<sigma> ''WORKER_GPU_IDS'' = Some v \<and> t \<in> set (split v CHR '','')
                  \<and> py_int t = None)"
  shows "\<exists>e. is_ValueError e \<and> contextmanager_enter \<sigma> = (Inl e, \<sigma>)
            \<and> with_acquire_gpu block \<sigma> = (Inl e, \<sigma>)"
proof -
  have "\<exists>e. is_ValueError e \<and> contextmanager_enter \<sigma> = (Inl e, \<sigma>)"
  proof (cases "environ \<sigma> ''WORKER_ID''")
    case None
    then show ?thesis
      by (simp add: contextmanager_enter_def acquire_gpu_def)
  next
    case (Some w)
    with assms obtain e where e: "get_worker_gpu_ids (environ \<sigma>) = Inl e"
      using get_worker_gpu_ids_rejects [of "environ \<sigma>"] by auto
    then have "is_ValueError e" by (rule get_worker_gpu_ids_error)
    with Some e show ?thesis
      by (simp add: contextmanager_enter_def acquire_gpu_def)
  qed
  then show ?thesis by (auto dest: with_acquire_gpu_enter_fails)
qed

theorem config_error_before_limiter_witness:
  "contextmanager_enter scenario_bad_token = (Inl (InvalidLiteral ''x''), scenario_bad_token)
   \<and> trace scenario_bad_token = [] \<and> clock scenario_bad_token = 0"
proof -
  have v: "environ scenario_bad_token ''WORKER_GPU_IDS'' = Some ''0,x''"
    by (simp add: scenario_bad_token_def start_world_def worker_env_def)
  have t: "''x'' \<in> set (split ''0,x'' CHR '','')"
    by code_simp
  have n: "py_int ''x'' = None"
    by code_simp
  have "environ scenario_bad_token ''WORKER_ID'' = None
         \<or> environ scenario_bad_token ''WORKER_GPU_IDS'' = None
         \<or> environ scenario_bad_token ''WORKER_GPU_IDS'' = Some []
         \<or> (\<exists>v t. environ scenario_bad_token ''WORKER_GPU_IDS'' = Some v
                  \<and> t \<in> set (split v CHR '','') \<and> py_int t = None)"
    using v t n by blast
  from config_error_before_limiter [OF this, of "\<lambda>i s. (Inr (), s)"]
  obtain e where e: "contextmanager_enter scenario_bad_token = (Inl e, scenario_bad_token)"
    by blast
  have "fst (contextmanager_enter scenario_bad_token) = Inl (InvalidLiteral ''x'')"
    by code_simp
  with e show ?thesis
    by (simp add: scenario_bad_token_def start_world_def)
qed

text \<open>
  C6 as stated fails for an empty worker identity: with \<^verbatim>\<open>WORKER_ID\<close> set to the empty
  string and one id, no error is raised, and the limiter is entered for the name
  \<^verbatim>\<open>gpu--0\<close>.
\<close>

theorem empty_worker_id_accepted:
  "environ scenario_empty_worker ''WORKER_ID'' = Some []
   \<and> fst (contextmanager_enter scenario_empty_worker) =
       Inr \<lparr>g_worker_id = [], g_gpu_id = 0, g_limit_name = ''gpu--0'', g_rest = []\<rparr>
   \<and> probes (trace (snd (contextmanager_enter scenario_empty_worker))) = [(''gpu--0'', 1, 100)]"
  by code_simp

subsection \<open>Marks left by entering and leaving\<close>

lemma probe_loop_marks:
  "probe_loop w cs \<sigma> = (out, \<sigma>') \<Longrightarrow>
   (case out of
      Yield g \<Rightarrow> skeleton (trace \<sigma>') = skeleton (trace \<sigma>) @ [Acq (g_limit_name g)]
    | Raise e \<Rightarrow> skeleton (trace \<sigma>') = skeleton (trace \<sigma>) \<and> \<not> is_contention e
    | StopIteration \<Rightarrow> False)"
proof (induction cs arbitrary: \<sigma>)
  case Nil
  then show ?case by auto
next
  case (Cons c cs)
  obtain gpu_id name where c: "c = (gpu_id, name)" by (cases c)
  show ?case
  proof (cases "limiter \<sigma> (clock \<sigma>) name")
    case None
    with Cons.prems show ?thesis by (auto simp: c ops)
  next
    case (Some e)
    show ?thesis
    proof (cases "is_contention e")
      case True
      let ?\<sigma>1 = "\<sigma>\<lparr>clock := Suc (clock \<sigma>),
              trace := trace \<sigma> @ [TryAcquire name 1 100 (Some e), Info (GpuBusy gpu_id)]\<rparr>"
      from Cons.prems Some True have "probe_loop w cs ?\<sigma>1 = (out, \<sigma>')"
        by (simp add: c ops)
      from Cons.IH [OF this] show ?thesis
        by (cases out) auto
    next
      case False
      with Cons.prems Some show ?thesis by (auto simp: c ops)
    qed
  qed
qed

lemma probe_loop_extends:
  "\<exists>evs k. k \<le> length cs \<and> (cs \<noteq> [] \<longrightarrow> 0 < k)
     \<and> trace (snd (probe_loop w cs \<sigma>)) = trace \<sigma> @ evs
     \<and> probes evs = map (\<lambda>c. (snd c, 1, 100)) (take k cs)"
proof (induction cs arbitrary: \<sigma>)
  case Nil
  then show ?case by simp
next
  case (Cons c cs)
  obtain gpu_id name where c: "c = (gpu_id, name)" by (cases c)
  show ?case
  proof (cases "busy_answer (limiter \<sigma> (clock \<sigma>) name)")
    case True
    let ?\<sigma>1 = "\<sigma>\<lparr>clock := Suc (clock \<sigma>),
              trace := trace \<sigma> @ [TryAcquire name 1 100 (limiter \<sigma> (clock \<sigma>) name),
                                    Info (GpuBusy gpu_id)]\<rparr>"
    from Cons.IH [of ?\<sigma>1] obtain evs k where k: "k \<le> length cs"
      "trace (snd (probe_loop w cs ?\<sigma>1)) = trace ?\<sigma>1 @ evs"
      "probes evs = map (\<lambda>c. (snd c, 1, 100)) (take k cs)" by blast
    have step: "probe_loop w (c # cs) \<sigma> = probe_loop w cs ?\<sigma>1"
      unfolding c by (rule probe_loop_busy_step [OF True])
    let ?evs = "TryAcquire name 1 100 (limiter \<sigma> (clock \<sigma>) name) # Info (GpuBusy gpu_id) # evs"
    have "trace (snd (probe_loop w (c # cs) \<sigma>)) = trace \<sigma> @ ?evs"
      unfolding step k(2) by simp
    moreover have "probes ?evs = map (\<lambda>c. (snd c, 1, 100)) (take (Suc k) (c # cs))"
      using k(3) by (simp add: c)
    ultimately show ?thesis
      using k(1) by (intro exI [of _ ?evs] exI [of _ "Suc k"]) simp
  next
    case False
    then have "\<exists>evs. trace (snd (probe_loop w (c # cs) \<sigma>)) = trace \<sigma> @ evs
       \<and> probes evs = map (\<lambda>c. (snd c, 1, 100)) (take (Suc 0) (c # cs))"
      by (cases "limiter \<sigma> (clock \<sigma>) name") (auto simp: c ops)
    then obtain evs where "trace (snd (probe_loop w (c # cs) \<sigma>)) = trace \<sigma> @ evs"
      "probes evs = map (\<lambda>c. (snd c, 1, 100)) (take (Suc 0) (c # cs))" by blast
    then show ?thesis
      by (intro exI [of _ evs] exI [of _ "Suc 0"]) simp
  qed
qed

lemma acquire_gpu_marks:
  "acquire_gpu \<sigma> = (out, \<sigma>') \<Longrightarrow>
   (case out of
      Yield g \<Rightarrow> skeleton (trace \<sigma>') = skeleton (trace \<sigma>) @ [Acq (g_limit_name g)]
    | Raise e \<Rightarrow> skeleton (trace \<sigma>') = skeleton (trace \<sigma>)
    | StopIteration \<Rightarrow> False)"
proof (cases "environ \<sigma> ''WORKER_ID''")
  case None
  assume "acquire_gpu \<sigma> = (out, \<sigma>')"
  with None show ?thesis by (auto simp: acquire_gpu_def)
next
  case (Some w)
  assume a: "acquire_gpu \<sigma> = (out, \<sigma>')"
  show ?thesis
  proof (cases "get_worker_gpu_ids (environ \<sigma>)")
    case (Inl e)
    with a Some show ?thesis by (auto simp: acquire_gpu_def)
  next
    case (Inr ids)
    from a have "probe_loop w (candidates w ids)
           (\<sigma>\<lparr>trace := trace \<sigma> @ [Info (WorkerHasGpus w ids),
                                   Info (LimitNamesToTry (candidates w ids))]\<rparr>) = (out, \<sigma>')"
      by (simp add: acquire_gpu_configured [OF Some Inr])
    from probe_loop_marks [OF this] show ?thesis
      by (cases out) auto
  qed
qed

lemma contextmanager_enter_marks:
  "contextmanager_enter \<sigma> = (r, \<sigma>') \<Longrightarrow>
   (case r of
      Inr g \<Rightarrow> skeleton (trace \<sigma>') = skeleton (trace \<sigma>) @ [Acq (g_limit_name g)]
    | Inl e \<Rightarrow> skeleton (trace \<sigma>') = skeleton (trace \<sigma>))"
proof -
  assume a: "contextmanager_enter \<sigma> = (r, \<sigma>')"
  obtain out \<sigma>1 where o: "acquire_gpu \<sigma> = (out, \<sigma>1)" by (cases "acquire_gpu \<sigma>")
  from acquire_gpu_marks [OF o] a o show ?thesis
    by (cases out) (auto simp: contextmanager_enter_def)
qed

lemma contextmanager_exit_normal:
  "contextmanager_exit g None \<sigma> =
     (None, \<sigma>\<lparr>trace := trace \<sigma> @ [Info (ReleasedGpu (g_gpu_id g) (g_worker_id g)),
                                   Release (g_limit_name g)]\<rparr>)"
  by (simp add: contextmanager_exit_def acquire_gpu_next_def ops)

lemma contextmanager_exit_other:
  "\<not> is_contention e \<Longrightarrow>
   contextmanager_exit g (Some e) \<sigma> = (Some e, \<sigma>\<lparr>trace := trace \<sigma> @ [Release (g_limit_name g)]\<rparr>)"
  by (simp add: contextmanager_exit_def acquire_gpu_throw_def ops)

lemma contextmanager_exit_contention:
  "is_contention e \<Longrightarrow>
   contextmanager_exit g (Some e) \<sigma> =
     (case probe_loop (g_worker_id g) (g_rest g)
             (\<sigma>\<lparr>trace := trace \<sigma> @ [Release (g_limit_name g), Info (GpuBusy (g_gpu_id g))]\<rparr>) of
        (StopIteration, \<sigma>1) \<Rightarrow> (None, \<sigma>1)
      | (Raise e', \<sigma>1) \<Rightarrow> (Some e', \<sigma>1)
      | (Yield g', \<sigma>1) \<Rightarrow>
          (Some (RuntimeError ''generator didn't stop after throw()''),
           \<sigma>1\<lparr>trace := trace \<sigma>1 @ [Release (g_limit_name g')]\<rparr>))"
  by (simp add: contextmanager_exit_def acquire_gpu_throw_def acquire_gpu_close_def ops
        split: prod.splits gen_outcome.splits)

lemma contextmanager_exit_marks:
  "\<exists>ms. skeleton (trace (snd (contextmanager_exit g exc \<sigma>))) =
           skeleton (trace \<sigma>) @ Rel (g_limit_name g) # ms
      \<and> paired None ms \<and> (\<forall>m\<in>set ms. is_lease m)
      \<and> ((\<forall>e. exc = Some e \<longrightarrow> \<not> is_contention e) \<longrightarrow> ms = [])"
proof (cases exc)
  case None
  then show ?thesis by (simp add: contextmanager_exit_normal)
next
  case (Some e)
  show ?thesis
  proof (cases "is_contention e")
    case False
    with Some show ?thesis by (simp add: contextmanager_exit_other)
  next
    case True
    let ?\<sigma>1 = "\<sigma>\<lparr>trace := trace \<sigma> @ [Release (g_limit_name g), Info (GpuBusy (g_gpu_id g))]\<rparr>"
    obtain out \<sigma>2 where p: "probe_loop (g_worker_id g) (g_rest g) ?\<sigma>1 = (out, \<sigma>2)"
      by (cases "probe_loop (g_worker_id g) (g_rest g) ?\<sigma>1")
    from probe_loop_marks [OF p] show ?thesis
      unfolding Some contextmanager_exit_contention [OF True] p using True
      by (cases out) auto
  qed
qed

subsection \<open>Release on every way out\<close>

lemma with_acquire_gpu_final:
  assumes "contextmanager_enter \<sigma> = (Inr g, \<sigma>1)" and "block (g_gpu_id g) \<sigma>1 = (rb, \<sigma>2)"
  shows "snd (with_acquire_gpu block \<sigma>) =
         snd (contextmanager_exit g (case rb of Inl e \<Rightarrow> Some e | Inr v \<Rightarrow> None) \<sigma>2)"
  using assms by (cases rb) (auto simp: with_acquire_gpu_def split: prod.splits option.splits)

lemma filter_all_leases: "\<forall>m\<in>set ms. is_lease m \<Longrightarrow> filter is_lease ms = ms"
  by (induction ms) auto

lemma with_acquire_gpu_paired:
  assumes "\<forall>i s. lease_events (trace (snd (block i s))) = lease_events (trace s)"
  shows "\<exists>ms. lease_events (trace (snd (with_acquire_gpu block \<sigma>))) = lease_events (trace \<sigma>) @ ms
            \<and> paired None ms
            \<and> (\<forall>g \<sigma>1. contextmanager_enter \<sigma> = (Inr g, \<sigma>1) \<longrightarrow>
                 (\<exists>ms'. ms = Acq (g_limit_name g) # Rel (g_limit_name g) # ms'
                    \<and> ((\<forall>e \<sigma>2. block (g_gpu_id g) \<sigma>1 = (Inl e, \<sigma>2) \<longrightarrow> \<not> is_contention e)
                        \<longrightarrow> ms' = [])))"
proof -
  obtain r \<sigma>1 where en: "contextmanager_enter \<sigma> = (r, \<sigma>1)"
    by (cases "contextmanager_enter \<sigma>")
  show ?thesis
  proof (cases r)
    case (Inl e)
    with en have "with_acquire_gpu block \<sigma> = (Inl e, \<sigma>1)"
      by (simp add: with_acquire_gpu_enter_fails)
    moreover from contextmanager_enter_marks [OF en] Inl
    have "lease_events (trace \<sigma>1) = lease_events (trace \<sigma>)"
      by (simp add: lease_events_def)
    ultimately show ?thesis using en Inl by simp
  next
    case (Inr g)
    obtain rb \<sigma>2 where bl: "block (g_gpu_id g) \<sigma>1 = (rb, \<sigma>2)"
      by (cases "block (g_gpu_id g) \<sigma>1")
    let ?exc = "case rb of Inl e \<Rightarrow> Some e | Inr v \<Rightarrow> None"
    from contextmanager_exit_marks [of g ?exc \<sigma>2] obtain ms' where ms':
      "skeleton (trace (snd (contextmanager_exit g ?exc \<sigma>2))) =
         skeleton (trace \<sigma>2) @ Rel (g_limit_name g) # ms'"
      "paired None ms'" "\<forall>m\<in>set ms'. is_lease m"
      "(\<forall>e. ?exc = Some e \<longrightarrow> \<not> is_contention e) \<longrightarrow> ms' = []"
      by blast
    have l1: "lease_events (trace \<sigma>1) = lease_events (trace \<sigma>) @ [Acq (g_limit_name g)]"
      using contextmanager_enter_marks [OF en] Inr by (simp add: lease_events_def)
    have l2: "lease_events (trace \<sigma>2) = lease_events (trace \<sigma>1)"
      using assms [rule_format, of "g_gpu_id g" \<sigma>1] bl by simp
    have l3: "lease_events (trace (snd (with_acquire_gpu block \<sigma>))) =
              lease_events (trace \<sigma>2) @ Rel (g_limit_name g) # ms'"
      unfolding with_acquire_gpu_final [of \<sigma> g \<sigma>1 block rb \<sigma>2, OF en [unfolded Inr] bl]
      using ms'(1,3) by (simp add: lease_events_def filter_all_leases)
    have quiet: "(\<forall>e \<sigma>2'. block (g_gpu_id g) \<sigma>1 = (Inl e, \<sigma>2') \<longrightarrow> \<not> is_contention e)
                 \<longrightarrow> ms' = []"
      using ms'(4) bl by (cases rb) auto
    let ?ms = "Acq (g_limit_name g) # Rel (g_limit_name g) # ms'"
    have "lease_events (trace (snd (with_acquire_gpu block \<sigma>))) = lease_events (trace \<sigma>) @ ?ms"
      unfolding l3 l2 l1 by simp
    moreover have "paired None ?ms" using ms'(2) by simp
    ultimately show ?thesis
      using en Inr quiet by (intro exI [of _ ?ms]) auto
  qed
qed

text \<open>
  C2. Let the block of \<^verbatim>\<open>with acquire_gpu(logger) as gpu_id\<close> neither take nor release
  slots itself. Then, however the block ends (normally or by raising any exception), the
  grants and releases that the whole statement adds to the trace are paired: every grant
  is followed by exactly one release of the same slot before anything else is granted
  and before the statement is left, and nothing is released that was not granted. If
  entering succeeded, the slot it was granted is released right after the block; if the
  block did not raise one of the two slot-acquisition exceptions, that is all.
\<close>

theorem release_exactly_once:
  assumes "\<forall>i s. lease_events (trace (snd (block i s))) = lease_events (trace s)"
  shows "\<exists>ms. lease_events (trace (snd (with_acquire_gpu block \<sigma>))) = lease_events (trace \<sigma>) @ ms
            \<and> paired None ms
            \<and> (\<forall>g \<sigma>1. contextmanager_enter \<sigma> = (Inr g, \<sigma>1) \<longrightarrow>
                 (\<exists>ms'. ms = Acq (g_limit_name g) # Rel (g_limit_name g) # ms'
                    \<and> ((\<forall>e \<sigma>2. block (g_gpu_id g) \<sigma>1 = (Inl e, \<sigma>2) \<longrightarrow> \<not> is_contention e)
                        \<longrightarrow> ms' = [])))"
  using assms by (rule with_acquire_gpu_paired)

theorem release_exactly_once_witness:
  "paired None (lease_events (trace (snd (with_acquire_gpu
       (\<lambda>i s. (Inl (OtherError ''boom'') :: exn + unit, s)) scenario_A))))
   \<and> lease_events (trace (snd (with_acquire_gpu
       (\<lambda>i s. (Inl (OtherError ''boom'') :: exn + unit, s)) scenario_A))) =
     [Acq ''gpu-worker-1-1'', Rel ''gpu-worker-1-1'']"
proof -
  let ?block = "\<lambda>(i::int) (s::world). (Inl (OtherError ''boom'') :: exn + unit, s)"
  have n: "\<forall>i s. lease_events (trace (snd (?block i s))) = lease_events (trace s)"
    by simp
  have t: "trace scenario_A = []"
    by (simp add: scenario_A_def start_world_def)
  have "paired None (lease_events (trace (snd (with_acquire_gpu ?block scenario_A))))"
    using release_exactly_once [OF n, of scenario_A] by (auto simp: t lease_events_def)
  moreover have "lease_events (trace (snd (with_acquire_gpu ?block scenario_A))) =
     [Acq ''gpu-worker-1-1'', Rel ''gpu-worker-1-1'']"
    by code_simp
  ultimately show ?thesis by simp
qed

subsection \<open>An exception of the block that the loop catches\<close>

lemma contextmanager_exit_contention_result:
  assumes "is_contention e"
  shows "\<exists>e' evs k. fst (contextmanager_exit g (Some e) \<sigma>) = Some e' \<and> \<not> is_contention e'
          \<and> trace (snd (contextmanager_exit g (Some e) \<sigma>)) =
               trace \<sigma> @ Release (g_limit_name g) # Info (GpuBusy (g_gpu_id g)) # evs
          \<and> k \<le> length (g_rest g) \<and> (g_rest g \<noteq> [] \<longrightarrow> 0 < k)
          \<and> probes evs = map (\<lambda>c. (snd c, 1, 100)) (take k (g_rest g))"
proof -
  let ?\<sigma>1 = "\<sigma>\<lparr>trace := trace \<sigma> @ [Release (g_limit_name g), Info (GpuBusy (g_gpu_id g))]\<rparr>"
  obtain out \<sigma>2 where p: "probe_loop (g_worker_id g) (g_rest g) ?\<sigma>1 = (out, \<sigma>2)"
    by (cases "probe_loop (g_worker_id g) (g_rest g) ?\<sigma>1")
  from probe_loop_extends [of "g_rest g" "g_worker_id g" ?\<sigma>1] p
  obtain evs k where ext: "k \<le> length (g_rest g)" "g_rest g \<noteq> [] \<longrightarrow> 0 < k"
    "trace \<sigma>2 = trace ?\<sigma>1 @ evs" "probes evs = map (\<lambda>c. (snd c, 1, 100)) (take k (g_rest g))"
    by auto
  note marks = probe_loop_marks [OF p]
  show ?thesis
  proof (cases out)
    case (Yield g')
    let ?evs = "evs @ [Release (g_limit_name g')]"
    have "fst (contextmanager_exit g (Some e) \<sigma>) =
            Some (RuntimeError ''generator didn't stop after throw()'')"
      and "trace (snd (contextmanager_exit g (Some e) \<sigma>)) =
            trace \<sigma> @ Release (g_limit_name g) # Info (GpuBusy (g_gpu_id g)) # ?evs"
      unfolding contextmanager_exit_contention [OF assms] p Yield using ext(3) by simp_all
    moreover have "probes ?evs = map (\<lambda>c. (snd c, 1, 100)) (take k (g_rest g))"
      using ext(4) by simp
    ultimately show ?thesis
      using ext(1,2) by (intro exI [of _ "RuntimeError ''generator didn't stop after throw()''"]
          exI [of _ ?evs] exI [of _ k]) simp
  next
    case (Raise e')
    have "fst (contextmanager_exit g (Some e) \<sigma>) = Some e'"
      and "trace (snd (contextmanager_exit g (Some e) \<sigma>)) =
            trace \<sigma> @ Release (g_limit_name g) # Info (GpuBusy (g_gpu_id g)) # evs"
      unfolding contextmanager_exit_contention [OF assms] p Raise using ext(3) by simp_all
    moreover have "\<not> is_contention e'" using marks Raise by simp
    ultimately show ?thesis
      using ext(1,2,4) by (intro exI [of _ e'] exI [of _ evs] exI [of _ k]) simp
  next
    case StopIteration
    with marks show ?thesis by simp
  qed
qed

text \<open>
  C9. Let entering have yielded a generator and let the block raise one of the two
  slot-acquisition exceptions. Then the \<^verbatim>\<open>with\<close> statement does not raise that
  exception: it raises another one, which is of neither slot-acquisition class. Meanwhile
  the generator has released the slot, logged the current GPU as busy and gone on with
  the loop: the limiter is entered for the next remaining candidates in order, for at
  least one of them if any remains.
\<close>

theorem contention_in_block_is_swallowed:
  assumes "contextmanager_enter \<sigma> = (Inr g, \<sigma>1)" and "block (g_gpu_id g) \<sigma>1 = (Inl e, \<sigma>2)"
    and "is_contention e"
  shows "\<exists>e' \<sigma>3 evs k. with_acquire_gpu block \<sigma> = (Inl e', \<sigma>3) \<and> e' \<noteq> e \<and> \<not> is_contention e'
          \<and> trace \<sigma>3 = trace \<sigma>2 @ Release (g_limit_name g) # Info (GpuBusy (g_gpu_id g)) # evs
          \<and> k \<le> length (g_rest g) \<and> (g_rest g \<noteq> [] \<longrightarrow> 0 < k)
          \<and> probes evs = map (\<lambda>c. (snd c, 1, 100)) (take k (g_rest g))"
proof -
  from contextmanager_exit_contention_result [OF assms(3), of g \<sigma>2]
  obtain e' evs k where r: "fst (contextmanager_exit g (Some e) \<sigma>2) = Some e'"
    "\<not> is_contention e'"
    "trace (snd (contextmanager_exit g (Some e) \<sigma>2)) =
       trace \<sigma>2 @ Release (g_limit_name g) # Info (GpuBusy (g_gpu_id g)) # evs"
    "k \<le> length (g_rest g)" "g_rest g \<noteq> [] \<longrightarrow> 0 < k"
    "probes evs = map (\<lambda>c. (snd c, 1, 100)) (take k (g_rest g))"
    by blast
  let ?\<sigma>3 = "snd (contextmanager_exit g (Some e) \<sigma>2)"
  have "with_acquire_gpu block \<sigma> = (Inl e', ?\<sigma>3)"
    using assms(1,2) r(1)
    by (cases "contextmanager_exit g (Some e) \<sigma>2") (simp add: with_acquire_gpu_def)
  moreover have "e' \<noteq> e" using r(2) assms(3) by auto
  ultimately show ?thesis
    using r(2-6) by (intro exI [of _ e'] exI [of _ ?\<sigma>3] exI [of _ evs] exI [of _ k]) simp
qed

theorem contention_in_block_is_swallowed_witness:
  "fst (with_acquire_gpu (\<lambda>i s. (Inl ConcurrencySlotAcquisitionError :: exn + unit, s))
          scenario_free) = Inl (RuntimeError ''generator didn't stop after throw()'')
   \<and> trace (snd (with_acquire_gpu (\<lambda>i s. (Inl ConcurrencySlotAcquisitionError :: exn + unit, s))
          scenario_free)) =
     [Info (WorkerHasGpus ''worker-1'' [0, 1]),
      Info (LimitNamesToTry [(0, ''gpu-worker-1-0''), (1, ''gpu-worker-1-1'')]),
      TryAcquire ''gpu-worker-1-0'' 1 100 None, Info (AcquiredGpu 0 ''worker-1''),
      Release ''gpu-worker-1-0'', Info (GpuBusy 0),
      TryAcquire ''gpu-worker-1-1'' 1 100 None, Info (AcquiredGpu 1 ''worker-1''),
      Release ''gpu-worker-1-1'']"
proof -
  let ?block = "\<lambda>(i::int) (s::world). (Inl ConcurrencySlotAcquisitionError :: exn + unit, s)"
  let ?g = "\<lparr>g_worker_id = ''worker-1'', g_gpu_id = 0, g_limit_name = ''gpu-worker-1-0'',
             g_rest = [(1, ''gpu-worker-1-1'')]\<rparr>"
  let ?\<sigma>1 = "snd (contextmanager_enter scenario_free)"
  have "fst (contextmanager_enter scenario_free) = Inr ?g"
    by code_simp
  then have 1: "contextmanager_enter scenario_free = (Inr ?g, ?\<sigma>1)"
    by (simp add: prod_eq_iff)
  have 2: "?block (g_gpu_id ?g) ?\<sigma>1 = (Inl ConcurrencySlotAcquisitionError, ?\<sigma>1)"
    by simp
  have 3: "is_contention ConcurrencySlotAcquisitionError"
    by simp
  from contention_in_block_is_swallowed [of scenario_free ?g ?\<sigma>1 ?block _ ?\<sigma>1, OF 1 2 3]
  obtain e' where "fst (with_acquire_gpu ?block scenario_free) = Inl e'"
    by auto
  moreover have "fst (with_acquire_gpu ?block scenario_free) =
      Inl (RuntimeError ''generator didn't stop after throw()'')"
    by code_simp
  moreover have "trace (snd (with_acquire_gpu ?block scenario_free)) =
     [Info (WorkerHasGpus ''worker-1'' [0, 1]),
      Info (LimitNamesToTry [(0, ''gpu-worker-1-0''), (1, ''gpu-worker-1-1'')]),
      TryAcquire ''gpu-worker-1-0'' 1 100 None, Info (AcquiredGpu 0 ''worker-1''),
      Release ''gpu-worker-1-0'', Info (GpuBusy 0),
      TryAcquire ''gpu-worker-1-1'' 1 100 None, Info (AcquiredGpu 1 ''worker-1''),
      Release ''gpu-worker-1-1'']"
    by code_simp
  ultimately show ?thesis by simp
qed

subsection \<open>The tasks, and a block that ends normally\<close>

lemma randint_eq:
  "randint a b \<sigma> = (a + int (rand \<sigma> (draws \<sigma>) mod nat (b - a + 1)), \<sigma>\<lparr>draws := Suc (draws \<sigma>)\<rparr>)"
  by (simp add: randint_def)

lemma work_loop_world:
  "snd (work_loop n r \<sigma>) = \<sigma>\<lparr>draws := draws \<sigma> + n, trace := trace \<sigma> @ replicate n (Sleep 1)\<rparr>"
proof (induction n arbitrary: r \<sigma>)
  case 0
  then show ?case by simp
next
  case (Suc n)
  show ?case
    by (simp add: randint_eq emit_def Suc.IH)
qed

lemma simulate_work_world:
  "snd (simulate_work gpu_id n \<sigma>) =
     \<sigma>\<lparr>draws := draws \<sigma> + n,
       trace := trace \<sigma> @ Info (SimulatingWork gpu_id n) # replicate n (Sleep 1)\<rparr>"
  by (simp add: simulate_work_def work_loop_world ops)

lemma pre_processing_world:
  "snd (pre_processing gpu_id n \<sigma>) =
     \<sigma>\<lparr>draws := draws \<sigma> + n,
       trace := trace \<sigma> @ Info (Started ''pre_processing'' gpu_id) #
                Info (SimulatingWork gpu_id n) # replicate n (Sleep 1) @
                [Info (Finished ''pre_processing'' gpu_id)]\<rparr>"
  using simulate_work_world [of gpu_id n "info (Started ''pre_processing'' gpu_id) \<sigma>"]
  by (auto simp: pre_processing_def ops split: prod.splits)

lemma predict_eq:
  "predict gpu_id data n \<sigma> =
     (labels ! (rand \<sigma> (draws \<sigma> + n) mod length labels),
      \<sigma>\<lparr>draws := Suc (draws \<sigma> + n),
        trace := trace \<sigma> @ Info (Started ''prediction'' gpu_id) #
                 Info (SimulatingWork gpu_id n) # replicate n (Sleep 1) @
                 [Info (Finished ''prediction'' gpu_id)]\<rparr>)"
  using simulate_work_world [of gpu_id n "info (Started ''prediction'' gpu_id) \<sigma>"]
  by (auto simp: predict_def choice_def ops split: prod.splits)

lemma post_processing_eq:
  "post_processing gpu_id pred n \<sigma> =
     (NoneV,
      \<sigma>\<lparr>draws := draws \<sigma> + n,
        trace := trace \<sigma> @ Info (Started ''post_processing'' gpu_id) #
                 Info (SimulatingWork gpu_id n) # replicate n (Sleep 1) @
                 [Info (Finished ''post_processing'' gpu_id), Print (upper pred)]\<rparr>)"
  using simulate_work_world [of gpu_id n "info (Started ''post_processing'' gpu_id) \<sigma>"]
  by (auto simp: post_processing_def ops split: prod.splits)

lemma sleeps_silent [simp]:
  "skeleton (replicate n (Sleep k)) = []" "printed (replicate n (Sleep k)) = []"
  "probes (replicate n (Sleep k)) = []"
  by (induction n) auto

lemma probe_loop_frame:
  "probe_loop w cs \<sigma> = (out, \<sigma>') \<Longrightarrow>
   rand \<sigma>' = rand \<sigma> \<and> draws \<sigma>' = draws \<sigma> \<and> printed (trace \<sigma>') = printed (trace \<sigma>)"
proof (induction cs arbitrary: \<sigma>)
  case Nil
  then show ?case by auto
next
  case (Cons c cs)
  obtain gpu_id name where c: "c = (gpu_id, name)" by (cases c)
  show ?case
  proof (cases "busy_answer (limiter \<sigma> (clock \<sigma>) name)")
    case True
    let ?\<sigma>1 = "\<sigma>\<lparr>clock := Suc (clock \<sigma>),
              trace := trace \<sigma> @ [TryAcquire name 1 100 (limiter \<sigma> (clock \<sigma>) name),
                                    Info (GpuBusy gpu_id)]\<rparr>"
    have "probe_loop w cs ?\<sigma>1 = (out, \<sigma>')"
      using Cons.prems unfolding c probe_loop_busy_step [OF True] .
    from Cons.IH [OF this] show ?thesis by simp
  next
    case False
    with Cons.prems show ?thesis
      by (cases "limiter \<sigma> (clock \<sigma>) name") (auto simp: c ops)
  qed
qed

lemma contextmanager_enter_frame:
  assumes "contextmanager_enter \<sigma> = (r, \<sigma>')"
  shows "rand \<sigma>' = rand \<sigma> \<and> draws \<sigma>' = draws \<sigma> \<and> printed (trace \<sigma>') = printed (trace \<sigma>)"
proof -
  obtain out \<sigma>1 where o: "acquire_gpu \<sigma> = (out, \<sigma>1)" by (cases "acquire_gpu \<sigma>")
  have s: "\<sigma>' = \<sigma>1" using assms o contextmanager_enter_trace [of \<sigma>] by simp
  show ?thesis
  proof (cases "environ \<sigma> ''WORKER_ID''")
    case None
    with o show ?thesis unfolding s by (auto simp: acquire_gpu_def)
  next
    case (Some w)
    show ?thesis
    proof (cases "get_worker_gpu_ids (environ \<sigma>)")
      case (Inl e)
      with o Some show ?thesis unfolding s by (auto simp: acquire_gpu_def)
    next
      case (Inr ids)
      from o have "probe_loop w (candidates w ids)
           (\<sigma>\<lparr>trace := trace \<sigma> @ [Info (WorkerHasGpus w ids),
                                   Info (LimitNamesToTry (candidates w ids))]\<rparr>) = (out, \<sigma>1)"
        by (simp add: acquire_gpu_configured [OF Some Inr])
      from probe_loop_frame [OF this] show ?thesis unfolding s by simp
    qed
  qed
qed

lemma contextmanager_exit_raises: "fst (contextmanager_exit g (Some e) \<sigma>) \<noteq> None"
proof (cases "is_contention e")
  case True
  from contextmanager_exit_contention_result [OF True, of g \<sigma>] show ?thesis by auto
next
  case False
  then show ?thesis by (simp add: contextmanager_exit_other)
qed

lemma with_acquire_gpu_success:
  assumes "with_acquire_gpu block \<sigma> = (Inr r, \<sigma>')"
  shows "\<exists>g \<sigma>1 v \<sigma>2. contextmanager_enter \<sigma> = (Inr g, \<sigma>1)
          \<and> block (g_gpu_id g) \<sigma>1 = (Inr v, \<sigma>2) \<and> r = Some v
          \<and> \<sigma>' = \<sigma>2\<lparr>trace := trace \<sigma>2 @ [Info (ReleasedGpu (g_gpu_id g) (g_worker_id g)),
                                          Release (g_limit_name g)]\<rparr>"
proof -
  obtain en \<sigma>1 where en: "contextmanager_enter \<sigma> = (en, \<sigma>1)"
    by (cases "contextmanager_enter \<sigma>")
  from assms en obtain g where g: "en = Inr g"
    by (cases en) (auto simp: with_acquire_gpu_def)
  obtain rb \<sigma>2 where bl: "block (g_gpu_id g) \<sigma>1 = (rb, \<sigma>2)"
    by (cases "block (g_gpu_id g) \<sigma>1")
  show ?thesis
  proof (cases rb)
    case (Inl e)
    with assms en g bl contextmanager_exit_raises [of g e \<sigma>2] show ?thesis
      by (auto simp: with_acquire_gpu_def split: prod.splits option.splits)
  next
    case (Inr v)
    with assms en g bl show ?thesis
      by (auto simp: with_acquire_gpu_def contextmanager_exit_normal)
  qed
qed

subsection \<open>The blocks of the flows\<close>

lemma probe_loop_yield:
  "probe_loop w cs \<sigma> = (Yield g, \<sigma>') \<Longrightarrow>
   g_worker_id g = w \<and> (g_gpu_id g, g_limit_name g) \<in> set cs"
proof (induction cs arbitrary: \<sigma>)
  case Nil
  then show ?case by simp
next
  case (Cons c cs)
  obtain gpu_id name where c: "c = (gpu_id, name)" by (cases c)
  show ?case
  proof (cases "busy_answer (limiter \<sigma> (clock \<sigma>) name)")
    case True
    let ?\<sigma>1 = "\<sigma>\<lparr>clock := Suc (clock \<sigma>),
              trace := trace \<sigma> @ [TryAcquire name 1 100 (limiter \<sigma> (clock \<sigma>) name),
                                    Info (GpuBusy gpu_id)]\<rparr>"
    have "probe_loop w cs ?\<sigma>1 = (Yield g, \<sigma>')"
      using Cons.prems unfolding c probe_loop_busy_step [OF True] .
    from Cons.IH [OF this] show ?thesis by simp
  next
    case False
    with Cons.prems show ?thesis
      by (cases "limiter \<sigma> (clock \<sigma>) name") (auto simp: c ops)
  qed
qed

lemma contextmanager_enter_lease_name:
  assumes "contextmanager_enter \<sigma> = (Inr g, \<sigma>1)"
  shows "g_limit_name g = limit_name (g_worker_id g) (g_gpu_id g)"
proof -
  from assms have y: "acquire_gpu \<sigma> = (Yield g, \<sigma>1)"
    by (auto simp: contextmanager_enter_def split: prod.splits gen_outcome.splits)
  then obtain w where w: "environ \<sigma> ''WORKER_ID'' = Some w"
    by (cases "environ \<sigma> ''WORKER_ID''") (auto simp: acquire_gpu_def)
  from y w obtain ids where ids: "get_worker_gpu_ids (environ \<sigma>) = Inr ids"
    by (cases "get_worker_gpu_ids (environ \<sigma>)") (auto simp: acquire_gpu_def)
  from y have "probe_loop w (candidates w ids)
           (\<sigma>\<lparr>trace := trace \<sigma> @ [Info (WorkerHasGpus w ids),
                                   Info (LimitNamesToTry (candidates w ids))]\<rparr>) = (Yield g, \<sigma>1)"
    by (simp add: acquire_gpu_configured [OF w ids])
  from probe_loop_yield [OF this] show ?thesis
    by (auto simp: candidates_def)
qed

text \<open>The block of the single-acquisition flow.\<close>

lemma single_block:
  "(case pre_processing i 30 s of (data, s1) \<Rightarrow>
      case predict i data 30 s1 of (prediction, s2) \<Rightarrow>
        case post_processing i prediction 30 s2 of (r, s3) \<Rightarrow> (Inr r :: exn + pyval, s3)) = (rb, s')
   \<Longrightarrow> rb = Inr NoneV \<and> rand s' = rand s \<and> draws s' = draws s + 91
     \<and> skeleton (trace s') =
         skeleton (trace s) @ [Unit ''pre_processing'' i, Unit ''prediction'' i,
                               Unit ''post_processing'' i]
     \<and> printed (trace s') =
         printed (trace s) @ [upper (labels ! (rand s (draws s + 60) mod length labels))]"
  by (auto simp: case_prod_beta pre_processing_world predict_eq post_processing_eq add.commute)

lemma pre_block:
  "(case pre_processing i 30 s of (data, s1) \<Rightarrow> (Inr data :: exn + int, s1)) = (rb, s')
   \<Longrightarrow> (\<exists>d. rb = Inr d) \<and> rand s' = rand s \<and> draws s' = draws s + 30
     \<and> skeleton (trace s') = skeleton (trace s) @ [Unit ''pre_processing'' i]
     \<and> printed (trace s') = printed (trace s)"
  by (auto simp: case_prod_beta pre_processing_world)

lemma predict_block:
  "(case data of
      None \<Rightarrow> (Inl unbound_local, s)
    | Some d \<Rightarrow> (case predict i d 30 s of (prediction, s1) \<Rightarrow> (Inr prediction, s1))) = (Inr p, s')
   \<Longrightarrow> p = labels ! (rand s (draws s + 30) mod length labels)
     \<and> rand s' = rand s \<and> draws s' = draws s + 31
     \<and> skeleton (trace s') = skeleton (trace s) @ [Unit ''prediction'' i]
     \<and> printed (trace s') = printed (trace s)"
  by (cases data) (auto simp: predict_eq add.commute)

lemma post_block:
  "(case prediction of
      None \<Rightarrow> (Inl unbound_local, s)
    | Some p \<Rightarrow> (case post_processing i p 30 s of (r, s1) \<Rightarrow> (Inr r, s1))) = (Inr r, s')
   \<Longrightarrow> prediction \<noteq> None \<and> rand s' = rand s \<and> draws s' = draws s + 30
     \<and> skeleton (trace s') = skeleton (trace s) @ [Unit ''post_processing'' i]
     \<and> printed (trace s') = printed (trace s) @ [upper (the prediction)]"
  by (cases prediction) (auto simp: post_processing_eq)

subsection \<open>Runs of the flows that complete\<close>

lemma with_acquire_gpu_effect:
  assumes "with_acquire_gpu block \<sigma> = (Inr r, \<sigma>')"
  shows "\<exists>(g::gen_state) \<sigma>1 v \<sigma>2. block (g_gpu_id g) \<sigma>1 = (Inr v, \<sigma>2) \<and> r = Some v
          \<and> g_limit_name g = limit_name (g_worker_id g) (g_gpu_id g)
          \<and> rand \<sigma>1 = rand \<sigma> \<and> draws \<sigma>1 = draws \<sigma>
          \<and> printed (trace \<sigma>1) = printed (trace \<sigma>)
          \<and> skeleton (trace \<sigma>1) = skeleton (trace \<sigma>) @ [Acq (g_limit_name g)]
          \<and> rand \<sigma>' = rand \<sigma>2 \<and> draws \<sigma>' = draws \<sigma>2
          \<and> printed (trace \<sigma>') = printed (trace \<sigma>2)
          \<and> skeleton (trace \<sigma>') = skeleton (trace \<sigma>2) @ [Rel (g_limit_name g)]"
proof -
  from with_acquire_gpu_success [OF assms] obtain g \<sigma>1 v \<sigma>2 where
    en: "contextmanager_enter \<sigma> = (Inr g, \<sigma>1)" and
    bl: "block (g_gpu_id g) \<sigma>1 = (Inr v, \<sigma>2)" "r = Some v" and
    fin: "\<sigma>' = \<sigma>2\<lparr>trace := trace \<sigma>2 @ [Info (ReleasedGpu (g_gpu_id g) (g_worker_id g)),
                                         Release (g_limit_name g)]\<rparr>"
    by blast
  have fr: "rand \<sigma>1 = rand \<sigma>" "draws \<sigma>1 = draws \<sigma>" "printed (trace \<sigma>1) = printed (trace \<sigma>)"
    using contextmanager_enter_frame [OF en] by simp_all
  have mk: "skeleton (trace \<sigma>1) = skeleton (trace \<sigma>) @ [Acq (g_limit_name g)]"
    using contextmanager_enter_marks [OF en] by simp
  have body: "block (g_gpu_id g) \<sigma>1 = (Inr v, \<sigma>2) \<and> r = Some v
          \<and> g_limit_name g = limit_name (g_worker_id g) (g_gpu_id g)
          \<and> rand \<sigma>1 = rand \<sigma> \<and> draws \<sigma>1 = draws \<sigma>
          \<and> printed (trace \<sigma>1) = printed (trace \<sigma>)
          \<and> skeleton (trace \<sigma>1) = skeleton (trace \<sigma>) @ [Acq (g_limit_name g)]
          \<and> rand \<sigma>' = rand \<sigma>2 \<and> draws \<sigma>' = draws \<sigma>2
          \<and> printed (trace \<sigma>') = printed (trace \<sigma>2)
          \<and> skeleton (trace \<sigma>') = skeleton (trace \<sigma>2) @ [Rel (g_limit_name g)]"
    using bl fr mk contextmanager_enter_lease_name [OF en] unfolding fin by simp
  show ?thesis
    by (rule exI [of _ g], rule exI [of _ \<sigma>1], rule exI [of _ v], rule exI [of _ \<sigma>2])
       (rule body)
qed

lemma single_flow_success:
  assumes "single_acquisition_prediction_flow \<sigma> = (Inr v, \<sigma>')"
  shows "v = NoneV
       \<and> (\<exists>w i. skeleton (trace \<sigma>') =
            skeleton (trace \<sigma>) @
            [Acq (limit_name w i), Unit ''pre_processing'' i, Unit ''prediction'' i,
             Unit ''post_processing'' i, Rel (limit_name w i)])
       \<and> printed (trace \<sigma>') =
           printed (trace \<sigma>) @ [upper (labels ! (rand \<sigma> (draws \<sigma> + 60) mod length labels))]"
proof -
  let ?block = "\<lambda>gpu_id s.
                case pre_processing gpu_id 30 s of (data, s1) \<Rightarrow>
                case predict gpu_id data 30 s1 of (prediction, s2) \<Rightarrow>
                case post_processing gpu_id prediction 30 s2 of (r, s3) \<Rightarrow>
                  (Inr r :: exn + pyval, s3)"
  from assms obtain r where w: "with_acquire_gpu ?block \<sigma> = (Inr r, \<sigma>')" and v: "v = NoneV"
    by (auto simp: single_acquisition_prediction_flow_def split: prod.splits sum.splits)
  from with_acquire_gpu_effect [OF w] obtain g :: gen_state and \<sigma>1 u \<sigma>2 where
    e: "?block (g_gpu_id g) \<sigma>1 = (Inr u, \<sigma>2)"
      "g_limit_name g = limit_name (g_worker_id g) (g_gpu_id g)"
      "rand \<sigma>1 = rand \<sigma>" "draws \<sigma>1 = draws \<sigma>"
      "printed (trace \<sigma>1) = printed (trace \<sigma>)"
      "skeleton (trace \<sigma>1) = skeleton (trace \<sigma>) @ [Acq (g_limit_name g)]"
      "rand \<sigma>' = rand \<sigma>2" "draws \<sigma>' = draws \<sigma>2"
      "printed (trace \<sigma>') = printed (trace \<sigma>2)"
      "skeleton (trace \<sigma>') = skeleton (trace \<sigma>2) @ [Rel (g_limit_name g)]"
    by blast
  note b = single_block [OF e(1)]
  have "skeleton (trace \<sigma>') =
            skeleton (trace \<sigma>) @
            [Acq (limit_name (g_worker_id g) (g_gpu_id g)), Unit ''pre_processing'' (g_gpu_id g),
             Unit ''prediction'' (g_gpu_id g), Unit ''post_processing'' (g_gpu_id g),
             Rel (limit_name (g_worker_id g) (g_gpu_id g))]"
    using b e by simp
  moreover have "printed (trace \<sigma>') =
           printed (trace \<sigma>) @ [upper (labels ! (rand \<sigma> (draws \<sigma> + 60) mod length labels))]"
    using b e by simp
  ultimately show ?thesis using v by blast
qed

lemma task_flow_success:
  assumes "task_acquisition_prediction_flow \<sigma> = (Inr v, \<sigma>')"
  shows "v = NoneV
       \<and> (\<exists>w1 i1 w2 i2 w3 i3. skeleton (trace \<sigma>') =
            skeleton (trace \<sigma>) @
            [Acq (limit_name w1 i1), Unit ''pre_processing'' i1, Rel (limit_name w1 i1),
             Acq (limit_name w2 i2), Unit ''prediction'' i2, Rel (limit_name w2 i2),
             Acq (limit_name w3 i3), Unit ''post_processing'' i3, Rel (limit_name w3 i3)])
       \<and> printed (trace \<sigma>') =
           printed (trace \<sigma>) @ [upper (labels ! (rand \<sigma> (draws \<sigma> + 60) mod length labels))]"
proof -
  let ?b1 = "\<lambda>gpu_id s. case pre_processing gpu_id 30 s of (data, s1) \<Rightarrow> (Inr data :: exn + int, s1)"
  let ?b2 = "\<lambda>data gpu_id s. case data of
                 None \<Rightarrow> (Inl unbound_local, s)
               | Some d \<Rightarrow> (case predict gpu_id d 30 s of (prediction, s1) \<Rightarrow> (Inr prediction, s1))"
  let ?b3 = "\<lambda>prediction gpu_id s. case prediction of
                 None \<Rightarrow> (Inl unbound_local, s)
               | Some p \<Rightarrow> (case post_processing gpu_id p 30 s of (r, s1) \<Rightarrow> (Inr r, s1))"
  from assms obtain data \<sigma>1 prediction \<sigma>2 r where
    w1: "with_acquire_gpu ?b1 \<sigma> = (Inr data, \<sigma>1)" and
    w2: "with_acquire_gpu (?b2 data) \<sigma>1 = (Inr prediction, \<sigma>2)" and
    w3: "with_acquire_gpu (?b3 prediction) \<sigma>2 = (Inr r, \<sigma>')" and v: "v = NoneV"
    by (auto simp: task_acquisition_prediction_flow_def split: prod.splits sum.splits)
  from with_acquire_gpu_effect [OF w1] obtain g1 :: gen_state and s1 v1 t1 where
    e1: "?b1 (g_gpu_id g1) s1 = (Inr v1, t1)" "data = Some v1"
      "g_limit_name g1 = limit_name (g_worker_id g1) (g_gpu_id g1)"
      "rand s1 = rand \<sigma>" "draws s1 = draws \<sigma>"
      "printed (trace s1) = printed (trace \<sigma>)"
      "skeleton (trace s1) = skeleton (trace \<sigma>) @ [Acq (g_limit_name g1)]"
      "rand \<sigma>1 = rand t1" "draws \<sigma>1 = draws t1"
      "printed (trace \<sigma>1) = printed (trace t1)"
      "skeleton (trace \<sigma>1) = skeleton (trace t1) @ [Rel (g_limit_name g1)]"
    by blast
  from with_acquire_gpu_effect [OF w2] obtain g2 :: gen_state and s2 v2 t2 where
    e2: "?b2 data (g_gpu_id g2) s2 = (Inr v2, t2)" "prediction = Some v2"
      "g_limit_name g2 = limit_name (g_worker_id g2) (g_gpu_id g2)"
      "rand s2 = rand \<sigma>1" "draws s2 = draws \<sigma>1"
      "printed (trace s2) = printed (trace \<sigma>1)"
      "skeleton (trace s2) = skeleton (trace \<sigma>1) @ [Acq (g_limit_name g2)]"
      "rand \<sigma>2 = rand t2" "draws \<sigma>2 = draws t2"
      "printed (trace \<sigma>2) = printed (trace t2)"
      "skeleton (trace \<sigma>2) = skeleton (trace t2) @ [Rel (g_limit_name g2)]"
    by blast
  from with_acquire_gpu_effect [OF w3] obtain g3 :: gen_state and s3 v3 t3 where
    e3: "?b3 prediction (g_gpu_id g3) s3 = (Inr v3, t3)"
      "g_limit_name g3 = limit_name (g_worker_id g3) (g_gpu_id g3)"
      "rand s3 = rand \<sigma>2" "draws s3 = draws \<sigma>2"
      "printed (trace s3) = printed (trace \<sigma>2)"
      "skeleton (trace s3) = skeleton (trace \<sigma>2) @ [Acq (g_limit_name g3)]"
      "rand \<sigma>' = rand t3" "draws \<sigma>' = draws t3"
      "printed (trace \<sigma>') = printed (trace t3)"
      "skeleton (trace \<sigma>') = skeleton (trace t3) @ [Rel (g_limit_name g3)]"
    by blast
  note b1 = pre_block [OF e1(1)]
  note b2 = predict_block [OF e2(1)]
  note b3 = post_block [OF e3(1)]
  have "skeleton (trace \<sigma>') =
            skeleton (trace \<sigma>) @
            [Acq (limit_name (g_worker_id g1) (g_gpu_id g1)), Unit ''pre_processing'' (g_gpu_id g1),
             Rel (limit_name (g_worker_id g1) (g_gpu_id g1)),
             Acq (limit_name (g_worker_id g2) (g_gpu_id g2)), Unit ''prediction'' (g_gpu_id g2),
             Rel (limit_name (g_worker_id g2) (g_gpu_id g2)),
             Acq (limit_name (g_worker_id g3) (g_gpu_id g3)), Unit ''post_processing'' (g_gpu_id g3),
             Rel (limit_name (g_worker_id g3) (g_gpu_id g3))]"
    using b1 b2 b3 e1(3-) e2(3-) e3(2-) by simp
  moreover have "printed (trace \<sigma>') =
           printed (trace \<sigma>) @ [upper (labels ! (rand \<sigma> (draws \<sigma> + 60) mod length labels))]"
    using b1 b2 b3 e1(2-) e2(2-) e3(2-) by (simp add: add.commute)
  ultimately show ?thesis using v by blast
qed

subsection \<open>Every run of the flows\<close>

lemma paired_append: "paired h a \<Longrightarrow> paired None b \<Longrightarrow> paired h (a @ b)"
  by (induction h a rule: paired.induct) auto

lemma single_block_neutral:
  "lease_events (trace (snd (case pre_processing i 30 s of (data, s1) \<Rightarrow>
      case predict i data 30 s1 of (prediction, s2) \<Rightarrow>
        case post_processing i prediction 30 s2 of (r, s3) \<Rightarrow> (Inr r :: exn + pyval, s3)))) =
   lease_events (trace s)"
  by (simp add: case_prod_beta pre_processing_world predict_eq post_processing_eq lease_events_def)

lemma pre_block_neutral:
  "lease_events (trace (snd (case pre_processing i 30 s of
      (data, s1) \<Rightarrow> (Inr data :: exn + int, s1)))) = lease_events (trace s)"
  by (simp add: case_prod_beta pre_processing_world lease_events_def)

lemma predict_block_neutral:
  "lease_events (trace (snd (case data of
      None \<Rightarrow> (Inl unbound_local, s)
    | Some d \<Rightarrow> (case predict i d 30 s of (prediction, s1) \<Rightarrow> (Inr prediction, s1))))) =
   lease_events (trace s)"
  by (cases data) (simp_all add: predict_eq lease_events_def)

lemma post_block_neutral:
  "lease_events (trace (snd (case prediction of
      None \<Rightarrow> (Inl unbound_local, s)
    | Some p \<Rightarrow> (case post_processing i p 30 s of (r, s1) \<Rightarrow> (Inr r, s1))))) =
   lease_events (trace s)"
  by (cases prediction) (simp_all add: post_processing_eq lease_events_def)

lemma with_acquire_gpu_paired_only:
  assumes "\<forall>i s. lease_events (trace (snd (block i s))) = lease_events (trace s)"
  shows "\<exists>ms. lease_events (trace (snd (with_acquire_gpu block \<sigma>))) = lease_events (trace \<sigma>) @ ms
            \<and> paired None ms"
  using with_acquire_gpu_paired [OF assms, of \<sigma>] by blast

lemma single_flow_paired:
  "\<exists>ms. lease_events (trace (snd (single_acquisition_prediction_flow \<sigma>))) =
          lease_events (trace \<sigma>) @ ms \<and> paired None ms"
proof -
  let ?block = "\<lambda>gpu_id s.
                case pre_processing gpu_id 30 s of (data, s1) \<Rightarrow>
                case predict gpu_id data 30 s1 of (prediction, s2) \<Rightarrow>
                case post_processing gpu_id prediction 30 s2 of (r, s3) \<Rightarrow>
                  (Inr r :: exn + pyval, s3)"
  have "snd (single_acquisition_prediction_flow \<sigma>) = snd (with_acquire_gpu ?block \<sigma>)"
    by (simp add: single_acquisition_prediction_flow_def split: prod.splits sum.splits)
  moreover have "\<forall>i s. lease_events (trace (snd (?block i s))) = lease_events (trace s)"
    by (simp add: single_block_neutral)
  ultimately show ?thesis
    using with_acquire_gpu_paired_only [of ?block \<sigma>] by simp
qed

lemma task_flow_paired:
  "\<exists>ms. lease_events (trace (snd (task_acquisition_prediction_flow \<sigma>))) =
          lease_events (trace \<sigma>) @ ms \<and> paired None ms"
proof -
  let ?b1 = "\<lambda>gpu_id s. case pre_processing gpu_id 30 s of (data, s1) \<Rightarrow> (Inr data :: exn + int, s1)"
  let ?b2 = "\<lambda>data gpu_id s. case data of
                 None \<Rightarrow> (Inl unbound_local, s)
               | Some d \<Rightarrow> (case predict gpu_id d 30 s of (prediction, s1) \<Rightarrow> (Inr prediction, s1))"
  let ?b3 = "\<lambda>prediction gpu_id s. case prediction of
                 None \<Rightarrow> (Inl unbound_local, s)
               | Some p \<Rightarrow> (case post_processing gpu_id p 30 s of (r, s1) \<Rightarrow> (Inr r, s1))"
  obtain r1 \<sigma>1 where w1: "with_acquire_gpu ?b1 \<sigma> = (r1, \<sigma>1)"
    by (cases "with_acquire_gpu ?b1 \<sigma>")
  from with_acquire_gpu_paired_only [of ?b1 \<sigma>] w1 obtain ms1 where
    m1: "lease_events (trace \<sigma>1) = lease_events (trace \<sigma>) @ ms1" "paired None ms1"
    by (auto simp: pre_block_neutral)
  show ?thesis
  proof (cases r1)
    case (Inl e)
    with w1 have "snd (task_acquisition_prediction_flow \<sigma>) = \<sigma>1"
      by (simp add: task_acquisition_prediction_flow_def)
    with m1 show ?thesis by auto
  next
    case data: (Inr data)
    obtain r2 \<sigma>2 where w2: "with_acquire_gpu (?b2 data) \<sigma>1 = (r2, \<sigma>2)"
      by (cases "with_acquire_gpu (?b2 data) \<sigma>1")
    from with_acquire_gpu_paired_only [of "?b2 data" \<sigma>1] w2 obtain ms2 where
      m2: "lease_events (trace \<sigma>2) = lease_events (trace \<sigma>1) @ ms2" "paired None ms2"
      by (auto simp: predict_block_neutral)
    have p2: "paired None (ms1 @ ms2)"
      using m1(2) m2(2) by (rule paired_append)
    show ?thesis
    proof (cases r2)
      case (Inl e)
      with w1 w2 data have "snd (task_acquisition_prediction_flow \<sigma>) = \<sigma>2"
        by (simp add: task_acquisition_prediction_flow_def)
      with m1 m2 p2 show ?thesis by auto
    next
      case prediction: (Inr prediction)
      obtain r3 \<sigma>3 where w3: "with_acquire_gpu (?b3 prediction) \<sigma>2 = (r3, \<sigma>3)"
        by (cases "with_acquire_gpu (?b3 prediction) \<sigma>2")
      from with_acquire_gpu_paired_only [of "?b3 prediction" \<sigma>2] w3 obtain ms3 where
        m3: "lease_events (trace \<sigma>3) = lease_events (trace \<sigma>2) @ ms3" "paired None ms3"
        by (auto simp: post_block_neutral)
      have p3: "paired None ((ms1 @ ms2) @ ms3)"
        using p2 m3(2) by (rule paired_append)
      from w1 w2 w3 data prediction have "snd (task_acquisition_prediction_flow \<sigma>) = \<sigma>3"
        by (cases r3) (simp_all add: task_acquisition_prediction_flow_def)
      with m1 m2 m3 p3 show ?thesis by auto
    qed
  qed
qed

subsection \<open>Runs in which the first candidate is free\<close>

lemma contextmanager_enter_first_free:
  assumes "environ \<sigma> ''WORKER_ID'' = Some w" and "get_worker_gpu_ids (environ \<sigma>) = Inr (i # ids)"
    and "limiter \<sigma> (clock \<sigma>) (limit_name w i) = None"
  shows "contextmanager_enter \<sigma> =
           (Inr \<lparr>g_worker_id = w, g_gpu_id = i, g_limit_name = limit_name w i,
                 g_rest = candidates w ids\<rparr>,
            \<sigma>\<lparr>clock := Suc (clock \<sigma>),
              trace := trace \<sigma> @ [Info (WorkerHasGpus w (i # ids)),
                                    Info (LimitNamesToTry (candidates w (i # ids))),
                                    TryAcquire (limit_name w i) 1 100 None,
                                    Info (AcquiredGpu i w)]\<rparr>)"
  using assms(3)
  unfolding contextmanager_enter_eq acquire_gpu_configured [OF assms(1,2)]
  by (simp add: candidates_def ops)

lemma with_first_free:
  assumes "environ \<sigma> ''WORKER_ID'' = Some w" and "get_worker_gpu_ids (environ \<sigma>) = Inr (i # ids)"
    and "\<forall>k. limiter \<sigma> k (limit_name w i) = None"
    and "\<forall>s. \<exists>v s'. block i s = (Inr v, s') \<and> environ s' = environ s \<and> limiter s' = limiter s"
  shows "\<exists>v \<sigma>'. with_acquire_gpu block \<sigma> = (Inr (Some v), \<sigma>')
          \<and> environ \<sigma>' = environ \<sigma> \<and> limiter \<sigma>' = limiter \<sigma>"
proof -
  let ?g = "\<lparr>g_worker_id = w, g_gpu_id = i, g_limit_name = limit_name w i,
             g_rest = candidates w ids\<rparr>"
  let ?\<sigma>1 = "\<sigma>\<lparr>clock := Suc (clock \<sigma>),
              trace := trace \<sigma> @ [Info (WorkerHasGpus w (i # ids)),
                                    Info (LimitNamesToTry (candidates w (i # ids))),
                                    TryAcquire (limit_name w i) 1 100 None,
                                    Info (AcquiredGpu i w)]\<rparr>"
  have en: "contextmanager_enter \<sigma> = (Inr ?g, ?\<sigma>1)"
    using assms(1,2) assms(3) [rule_format, of "clock \<sigma>"]
    by (rule contextmanager_enter_first_free)
  from assms(4) obtain v s' where bl: "block i ?\<sigma>1 = (Inr v, s')"
    "environ s' = environ ?\<sigma>1" "limiter s' = limiter ?\<sigma>1" by blast
  have "with_acquire_gpu block \<sigma> =
          (Inr (Some v), s'\<lparr>trace := trace s' @ [Info (ReleasedGpu i w), Release (limit_name w i)]\<rparr>)"
    using en bl(1) by (simp add: with_acquire_gpu_def contextmanager_exit_normal)
  with bl(2,3) show ?thesis by simp
qed

lemma flows_complete:
  assumes "environ \<sigma> ''WORKER_ID'' = Some w" and "get_worker_gpu_ids (environ \<sigma>) = Inr (i # ids)"
    and "\<forall>k. limiter \<sigma> k (limit_name w i) = None"
  shows "fst (single_acquisition_prediction_flow \<sigma>) = Inr NoneV"
    and "fst (task_acquisition_prediction_flow \<sigma>) = Inr NoneV"
proof -
  let ?block = "\<lambda>gpu_id s.
                case pre_processing gpu_id 30 s of (data, s1) \<Rightarrow>
                case predict gpu_id data 30 s1 of (prediction, s2) \<Rightarrow>
                case post_processing gpu_id prediction 30 s2 of (r, s3) \<Rightarrow>
                  (Inr r :: exn + pyval, s3)"
  have "\<forall>s. \<exists>v s'. ?block i s = (Inr v, s') \<and> environ s' = environ s \<and> limiter s' = limiter s"
    by (simp add: case_prod_beta pre_processing_world predict_eq post_processing_eq)
  from with_first_free [where block = ?block, OF assms this] show "fst (single_acquisition_prediction_flow \<sigma>) = Inr NoneV"
    by (auto simp: single_acquisition_prediction_flow_def)
next
  let ?b1 = "\<lambda>gpu_id s. case pre_processing gpu_id 30 s of (data, s1) \<Rightarrow> (Inr data :: exn + int, s1)"
  let ?b2 = "\<lambda>data gpu_id s. case data of
                 None \<Rightarrow> (Inl unbound_local, s)
               | Some d \<Rightarrow> (case predict gpu_id d 30 s of (prediction, s1) \<Rightarrow> (Inr prediction, s1))"
  let ?b3 = "\<lambda>prediction gpu_id s. case prediction of
                 None \<Rightarrow> (Inl unbound_local, s)
               | Some p \<Rightarrow> (case post_processing gpu_id p 30 s of (r, s1) \<Rightarrow> (Inr r, s1))"
  have "\<forall>s. \<exists>v s'. ?b1 i s = (Inr v, s') \<and> environ s' = environ s \<and> limiter s' = limiter s"
    by (simp add: case_prod_beta pre_processing_world)
  from with_first_free [where block = ?b1, OF assms this] obtain d \<sigma>1 where
    w1: "with_acquire_gpu ?b1 \<sigma> = (Inr (Some d), \<sigma>1)"
      "environ \<sigma>1 = environ \<sigma>" "limiter \<sigma>1 = limiter \<sigma>" by blast
  have a1: "environ \<sigma>1 ''WORKER_ID'' = Some w" "get_worker_gpu_ids (environ \<sigma>1) = Inr (i # ids)"
    "\<forall>k. limiter \<sigma>1 k (limit_name w i) = None"
    using assms w1(2,3) by simp_all
  have "\<forall>s. \<exists>v s'. ?b2 (Some d) i s = (Inr v, s') \<and> environ s' = environ s \<and> limiter s' = limiter s"
    by (simp add: predict_eq)
  from with_first_free [where block = "?b2 (Some d)", OF a1 this] obtain p \<sigma>2 where
    w2: "with_acquire_gpu (?b2 (Some d)) \<sigma>1 = (Inr (Some p), \<sigma>2)"
      "environ \<sigma>2 = environ \<sigma>1" "limiter \<sigma>2 = limiter \<sigma>1" by blast
  have a2: "environ \<sigma>2 ''WORKER_ID'' = Some w" "get_worker_gpu_ids (environ \<sigma>2) = Inr (i # ids)"
    "\<forall>k. limiter \<sigma>2 k (limit_name w i) = None"
    using a1 w2(2,3) by simp_all
  have "\<forall>s. \<exists>v s'. ?b3 (Some p) i s = (Inr v, s') \<and> environ s' = environ s \<and> limiter s' = limiter s"
    by (simp add: post_processing_eq)
  from with_first_free [where block = "?b3 (Some p)", OF a2 this] obtain r \<sigma>3 where
    w3: "with_acquire_gpu (?b3 (Some p)) \<sigma>2 = (Inr (Some r), \<sigma>3)" by blast
  from w1(1) w2(1) w3 show "fst (task_acquisition_prediction_flow \<sigma>) = Inr NoneV"
    by (simp add: task_acquisition_prediction_flow_def)
qed

lemma scenario_free_facts:
  "environ scenario_free ''WORKER_ID'' = Some ''worker-1''"
  "get_worker_gpu_ids (environ scenario_free) = Inr [0, 1]"
  "\<forall>k. limiter scenario_free k (limit_name ''worker-1'' 0) = None"
  "trace scenario_free = []" "draws scenario_free = 0" "rand scenario_free = (\<lambda>k. k)"
proof -
  show "environ scenario_free ''WORKER_ID'' = Some ''worker-1''"
    by (simp add: scenario_free_def start_world_def worker_env_def)
  show "get_worker_gpu_ids (environ scenario_free) = Inr [0, 1]"
    by code_simp
  show "\<forall>k. limiter scenario_free k (limit_name ''worker-1'' 0) = None"
    by (simp add: scenario_free_def start_world_def steady_def)
  show "trace scenario_free = []" "draws scenario_free = 0" "rand scenario_free = (\<lambda>k. k)"
    by (simp_all add: scenario_free_def start_world_def)
qed

lemma scenario_free_completes:
  "single_acquisition_prediction_flow scenario_free =
     (Inr NoneV, snd (single_acquisition_prediction_flow scenario_free))"
  "task_acquisition_prediction_flow scenario_free =
     (Inr NoneV, snd (task_acquisition_prediction_flow scenario_free))"
  using flows_complete [OF scenario_free_facts(1,2,3)] by (simp_all add: prod_eq_iff)

subsection \<open>The two flows\<close>

lemma scenario_gpu1_facts:
  "environ scenario_gpu1 ''WORKER_ID'' = Some ''worker-1''"
  "get_worker_gpu_ids (environ scenario_gpu1) = Inr [1]"
  "\<forall>k. limiter scenario_gpu1 k (limit_name ''worker-1'' 1) = None"
  "trace scenario_gpu1 = []" "draws scenario_gpu1 = 0" "rand scenario_gpu1 = (\<lambda>k. k)"
proof -
  show "environ scenario_gpu1 ''WORKER_ID'' = Some ''worker-1''"
    by (simp add: scenario_gpu1_def start_world_def worker_env_def)
  show "get_worker_gpu_ids (environ scenario_gpu1) = Inr [1]"
    by code_simp
  show "\<forall>k. limiter scenario_gpu1 k (limit_name ''worker-1'' 1) = None"
    by (simp add: scenario_gpu1_def start_world_def steady_def)
  show "trace scenario_gpu1 = []" "draws scenario_gpu1 = 0" "rand scenario_gpu1 = (\<lambda>k. k)"
    by (simp_all add: scenario_gpu1_def start_world_def)
qed

lemma scenario_gpu1_completes:
  "task_acquisition_prediction_flow scenario_gpu1 =
     (Inr NoneV, snd (task_acquisition_prediction_flow scenario_gpu1))"
  using flows_complete(2) [OF scenario_gpu1_facts(1,2,3)] by (simp add: prod_eq_iff)

text \<open>
  C7. A run of the single-acquisition flow that completes is granted exactly one slot,
  starts the three tasks on that GPU while it holds the slot, and releases the slot after
  the third. A run of the per-task flow that completes goes three times through grant,
  one task, release, each release coming before the next grant. In every run of either
  flow, completed or not, the grants and releases are paired, so that at no moment two
  slots are held.
\<close>

theorem flows_hold_one_lease:
  "(\<forall>v \<sigma>'. single_acquisition_prediction_flow \<sigma> = (Inr v, \<sigma>') \<longrightarrow>
      (\<exists>w i. skeleton (trace \<sigma>') =
         skeleton (trace \<sigma>) @
         [Acq (limit_name w i), Unit ''pre_processing'' i, Unit ''prediction'' i,
          Unit ''post_processing'' i, Rel (limit_name w i)]))
   \<and> (\<forall>v \<sigma>'. task_acquisition_prediction_flow \<sigma> = (Inr v, \<sigma>') \<longrightarrow>
      (\<exists>w1 i1 w2 i2 w3 i3. skeleton (trace \<sigma>') =
         skeleton (trace \<sigma>) @
         [Acq (limit_name w1 i1), Unit ''pre_processing'' i1, Rel (limit_name w1 i1),
          Acq (limit_name w2 i2), Unit ''prediction'' i2, Rel (limit_name w2 i2),
          Acq (limit_name w3 i3), Unit ''post_processing'' i3, Rel (limit_name w3 i3)]))
   \<and> (\<exists>ms. lease_events (trace (snd (single_acquisition_prediction_flow \<sigma>))) =
            lease_events (trace \<sigma>) @ ms \<and> paired None ms)
   \<and> (\<exists>ms. lease_events (trace (snd (task_acquisition_prediction_flow \<sigma>))) =
            lease_events (trace \<sigma>) @ ms \<and> paired None ms)"
  using single_flow_success [of \<sigma>] task_flow_success [of \<sigma>]
    single_flow_paired [of \<sigma>] task_flow_paired [of \<sigma>]
  by blast

theorem flows_hold_one_lease_witness:
  "(\<exists>w i. skeleton (trace (snd (single_acquisition_prediction_flow scenario_free))) =
         [Acq (limit_name w i), Unit ''pre_processing'' i, Unit ''prediction'' i,
          Unit ''post_processing'' i, Rel (limit_name w i)])
   \<and> (\<exists>w1 i1 w2 i2 w3 i3.
         skeleton (trace (snd (task_acquisition_prediction_flow scenario_free))) =
         [Acq (limit_name w1 i1), Unit ''pre_processing'' i1, Rel (limit_name w1 i1),
          Acq (limit_name w2 i2), Unit ''prediction'' i2, Rel (limit_name w2 i2),
          Acq (limit_name w3 i3), Unit ''post_processing'' i3, Rel (limit_name w3 i3)])
   \<and> paired None (lease_events (trace (snd (single_acquisition_prediction_flow scenario_free))))
   \<and> paired None (lease_events (trace (snd (task_acquisition_prediction_flow scenario_free))))"
  using flows_hold_one_lease [of scenario_free] scenario_free_completes
  by (simp add: scenario_free_facts(4) lease_events_def)

text \<open>
  C8, as the code has it. Neither flow returns a label: a run that completes returns
  \<^verbatim>\<open>None\<close>. The label that \<^verbatim>\<open>predict\<close> chose is what \<^verbatim>\<open>post_processing\<close> prints, in upper
  case. If a run of the single-acquisition flow and a run of the per-task flow both
  complete and start from the same position of the same random source, both print the
  same one line, whatever the environment and the limiter were, that is, whichever GPU
  ids the tasks were given: the upper case of the label drawn at position 60.
\<close>

theorem flows_print_same_label:
  assumes "single_acquisition_prediction_flow \<sigma> = (Inr v, \<sigma>')"
    and "task_acquisition_prediction_flow \<tau> = (Inr u, \<tau>')"
    and "rand \<tau> = rand \<sigma>" and "draws \<tau> = draws \<sigma>"
  shows "v = NoneV \<and> u = NoneV
       \<and> printed (trace \<sigma>') =
           printed (trace \<sigma>) @ [upper (labels ! (rand \<sigma> (draws \<sigma> + 60) mod length labels))]
       \<and> printed (trace \<tau>') =
           printed (trace \<tau>) @ [upper (labels ! (rand \<sigma> (draws \<sigma> + 60) mod length labels))]
       \<and> labels ! (rand \<sigma> (draws \<sigma> + 60) mod length labels) \<in> set labels"
proof -
  have "labels ! (rand \<sigma> (draws \<sigma> + 60) mod length labels) \<in> set labels"
    by (rule nth_mem) (simp add: labels_def)
  with single_flow_success [OF assms(1)] task_flow_success [OF assms(2)] assms(3,4)
  show ?thesis by simp
qed

theorem flows_print_same_label_witness:
  "printed (trace (snd (single_acquisition_prediction_flow scenario_free))) = [''CAT'']
   \<and> printed (trace (snd (task_acquisition_prediction_flow scenario_gpu1))) = [''CAT'']"
proof -
  have l: "upper (labels ! (60 mod length labels)) = ''CAT''"
    by code_simp
  have "rand scenario_gpu1 = rand scenario_free" "draws scenario_gpu1 = draws scenario_free"
    by (simp_all add: scenario_gpu1_facts scenario_free_facts)
  from flows_print_same_label [OF scenario_free_completes(1) scenario_gpu1_completes this]
  show ?thesis
    by (simp add: scenario_free_facts(4,5,6) scenario_gpu1_facts(4) l)
qed

text \<open>
  C8 as stated fails: with both slots of worker-1 free, both flows complete and return
  \<^verbatim>\<open>None\<close>, not a label.
\<close>

theorem flows_return_none:
  "fst (single_acquisition_prediction_flow scenario_free) = Inr NoneV
   \<and> fst (task_acquisition_prediction_flow scenario_free) = Inr NoneV"
  using flows_complete [OF scenario_free_facts(1,2,3)] by simp

end
